theory Spec2Isabelle
  imports Complex_Main "HOL-Library.AList"
begin

section \<open>The tabular record store of libs/common10x/DB.js\<close>

text \<open>
  The class \<^verbatim>\<open>DB\<close> treats a sheet as a table of records.  Its methods are embedded
  here as functions over explicit values: what the sheet answers to a read is an
  argument, what the method asks the sheet to do is a list of calls in the order issued,
  and a \<^verbatim>\<open>throw\<close> is the left summand of the result.  On top of them the methods are
  embedded once more as transformers of a state, which is a sheet and what the store
  caches.

  Conventions of the embedding.
  \<^item> A JavaScript object is the association list of its own enumerable properties, in
    insertion order, each name once.  What every object inherits from \<^verbatim>\<open>Object.prototype\<close>
    (\<open>Object_prototype_names\<close>) and a \<^verbatim>\<open>DBItemsObject\<close> from its class
    (\<open>DBItemsObject_names\<close>) counts for \<^verbatim>\<open>k in o\<close>, and the fields of a record are read
    through the prototype chain (\<open>obj_get\<close>), an inherited property giving the object or
    function it holds (\<open>JObj\<close>).  The hash functions read own properties only.  An
    assignment that replaces a prototype and the enumeration order of integer-like
    property names are not modelled.
  \<^item> A \<^verbatim>\<open>DBItem\<close> is a record of its data fields and its \<^verbatim>\<open>row\<close>.  A schema field
    called \<^verbatim>\<open>row\<close> shares the property \<^verbatim>\<open>row\<close> of the record: reading and writing the
    field reads and writes the row.
  \<^item> Cell values are the primitives of the sheet: strings, numbers, booleans, and
    \<^verbatim>\<open>null\<close>/\<^verbatim>\<open>undefined\<close>.  A number is a rational or \<^verbatim>\<open>NaN\<close>.  The conversions of the
    language between numbers, objects and strings are parameters (\<open>jsprims\<close>).
  \<^item> Callbacks are pure functions; a callback that mutates its argument returns the
    new value.  Number formats (\<^verbatim>\<open>setFormats\<close>) are left out: no store below declares one.
  \<^item> A leading underscore of a method name is dropped.
\<close>

subsection \<open>Values\<close>

datatype jsval = JUndefined | JNull | JBool bool | JNum rat | JNaN | JStr string | JObj string

text \<open>\<open>JObj n\<close> is the object or function called \<open>n\<close> that an inherited property holds
  (\<^verbatim>\<open>Object\<close>, \<^verbatim>\<open>DBItem.prototype\<close>, \<^verbatim>\<open>Object.prototype.toString\<close>, ...).\<close>

datatype error = Error string | TypeError string | RangeError string

record jsprims =
  numberToString :: "rat \<Rightarrow> string"
  stringToNumber :: "string \<Rightarrow> jsval"
  objectToString :: "string \<Rightarrow> string"

fun toString :: "jsprims \<Rightarrow> jsval \<Rightarrow> string" where
  "toString P JUndefined = ''undefined''"
| "toString P JNull = ''null''"
| "toString P (JBool b) = (if b then ''true'' else ''false'')"
| "toString P (JNum q) = numberToString P q"
| "toString P JNaN = ''NaN''"
| "toString P (JStr s) = s"
| "toString P (JObj n) = objectToString P n"

fun toNumber :: "jsprims \<Rightarrow> jsval \<Rightarrow> jsval" where
  "toNumber P JUndefined = JNaN"
| "toNumber P JNull = JNum 0"
| "toNumber P (JBool b) = JNum (if b then 1 else 0)"
| "toNumber P (JNum q) = JNum q"
| "toNumber P JNaN = JNaN"
| "toNumber P (JStr s) = stringToNumber P s"
| "toNumber P (JObj n) = stringToNumber P (objectToString P n)"

text \<open>\<^verbatim>\<open>a === b\<close>: two objects are equal when they are the same object.\<close>

definition strict_eq :: "jsval \<Rightarrow> jsval \<Rightarrow> bool" where
  "strict_eq a b = (a = b \<and> a \<noteq> JNaN)"

text \<open>\<^verbatim>\<open>a == b\<close>: \<^verbatim>\<open>null\<close> and \<^verbatim>\<open>undefined\<close> equal each other and nothing else, two
  objects are equal when they are the same object, two strings compare as strings, an
  object against a primitive is first converted to its string, and every other pair
  compares as numbers.\<close>

fun loose_eq :: "jsprims \<Rightarrow> jsval \<Rightarrow> jsval \<Rightarrow> bool" where
  "loose_eq P JUndefined b = (b = JUndefined \<or> b = JNull)"
| "loose_eq P JNull b = (b = JUndefined \<or> b = JNull)"
| "loose_eq P a JUndefined = False"
| "loose_eq P a JNull = False"
| "loose_eq P (JObj m) (JObj n) = (m = n)"
| "loose_eq P (JStr s) (JStr t) = (s = t)"
| "loose_eq P (JObj m) (JStr t) = (objectToString P m = t)"
| "loose_eq P (JStr s) (JObj n) = (s = objectToString P n)"
| "loose_eq P a b = strict_eq (toNumber P a) (toNumber P b)"

text \<open>Truthiness, as tested by \<^verbatim>\<open>if (value)\<close>.\<close>

fun truthy :: "jsval \<Rightarrow> bool" where
  "truthy JUndefined = False"
| "truthy JNull = False"
| "truthy (JBool b) = b"
| "truthy (JNum q) = (q \<noteq> 0)"
| "truthy JNaN = False"
| "truthy (JStr s) = (s \<noteq> [])"
| "truthy (JObj n) = True"

text \<open>\<^verbatim>\<open>xs[i]\<close> reads \<^verbatim>\<open>undefined\<close> out of range; \<^verbatim>\<open>xs[i] = v\<close> extends the array.\<close>

definition js_nth :: "jsval list \<Rightarrow> nat \<Rightarrow> jsval" where
  "js_nth xs i = (if i < length xs then xs ! i else JUndefined)"

definition js_array_set :: "jsval list \<Rightarrow> nat \<Rightarrow> jsval \<Rightarrow> jsval list" where
  "js_array_set xs i v =
     (if i < length xs then xs[i := v]
      else xs @ replicate (i - length xs) JUndefined @ [v])"

subsection \<open>Objects, records, the store\<close>

type_synonym dataItem = "(string \<times> jsval) list"

record dbItem =
  props :: dataItem
  row :: int

type_synonym keys = "(string \<times> nat) list"

record db =
  keys :: keys
  dataRowFirst :: int
  dataColumnFirst :: int
  dataColumnsNum :: "int option"

definition js_in :: "string \<Rightarrow> (string \<times> 'a) list \<Rightarrow> bool" where
  "js_in k obj = (map_of obj k \<noteq> None)"

definition js_get :: "dataItem \<Rightarrow> string \<Rightarrow> jsval" where
  "js_get obj k = (case map_of obj k of None \<Rightarrow> JUndefined | Some v \<Rightarrow> v)"

definition js_set :: "('k \<times> 'v) list \<Rightarrow> 'k \<Rightarrow> 'v \<Rightarrow> ('k \<times> 'v) list" where
  "js_set obj k v = AList.update k v obj"

definition Object_prototype_names :: "string list" where
  "Object_prototype_names =
     [''constructor'', ''toString'', ''toLocaleString'', ''valueOf'',
      ''hasOwnProperty'', ''isPrototypeOf'', ''propertyIsEnumerable'', ''__proto__'',
      ''__defineGetter__'', ''__defineSetter__'', ''__lookupGetter__'',
      ''__lookupSetter__'']"

definition DBItemsObject_names :: "string list" where
  "DBItemsObject_names =
     [''filter'', ''forEach'', ''length'', ''map'', ''reduce''] @ Object_prototype_names"

text \<open>\<^verbatim>\<open>k in o\<close> for a plain object and for a \<^verbatim>\<open>DBItemsObject\<close>.\<close>

definition in_object :: "string \<Rightarrow> (string \<times> 'a) list \<Rightarrow> bool" where
  "in_object k obj = (js_in k obj \<or> k \<in> set Object_prototype_names)"

definition in_DBItemsObject :: "string \<Rightarrow> (string \<times> 'a) list \<Rightarrow> bool" where
  "in_DBItemsObject k obj = (js_in k obj \<or> k \<in> set DBItemsObject_names)"

text \<open>\<^verbatim>\<open>o[k]\<close> for an object with the own properties \<open>own\<close> whose constructor is called
  \<open>cls\<close> (\<^verbatim>\<open>Object\<close> for a plain object, \<^verbatim>\<open>DBItem\<close> for a record of the store): the own
  property, or else what the prototype chain gives.\<close>

definition inherited :: "string \<Rightarrow> string \<Rightarrow> jsval" where
  "inherited cls k =
     (if k = ''constructor'' then JObj cls
      else if k = ''__proto__'' then JObj (cls @ ''.prototype'')
      else if k \<in> set Object_prototype_names then JObj (''Object.prototype.'' @ k)
      else JUndefined)"

definition obj_get :: "string \<Rightarrow> dataItem \<Rightarrow> string \<Rightarrow> jsval" where
  "obj_get cls own k = (case map_of own k of Some v \<Rightarrow> v | None \<Rightarrow> inherited cls k)"

text \<open>A \<^verbatim>\<open>DBItem\<close> has the own property \<^verbatim>\<open>row\<close> from its constructor on.  The record
  keeps the number of the row in \<open>row\<close>; a value stored in the property that is no
  integer is kept in \<open>props\<close> under the name \<^verbatim>\<open>row\<close> and hides the number.\<close>

definition own_props :: "dbItem \<Rightarrow> dataItem" where
  "own_props c =
     (if js_in ''row'' (props c) then props c
      else (''row'', JNum (of_int (row c))) # props c)"

definition dbItem_get :: "dbItem \<Rightarrow> string \<Rightarrow> jsval" where
  "dbItem_get c k = obj_get ''DBItem'' (own_props c) k"

text \<open>\<^verbatim>\<open>c[k] = v\<close> for a \<^verbatim>\<open>DBItem\<close>.  The assignment of a primitive to \<^verbatim>\<open>__proto__\<close>
  does nothing; the assignment of an object, which replaces the prototype, is outside
  the embedding (the value is kept as a property).\<close>

definition is_object :: "jsval \<Rightarrow> bool" where
  "is_object v = (case v of JObj n \<Rightarrow> True | JNull \<Rightarrow> True | _ \<Rightarrow> False)"

definition as_integer :: "jsval \<Rightarrow> int option" where
  "as_integer v = (case v of JNum q \<Rightarrow> if q = of_int \<lfloor>q\<rfloor> then Some \<lfloor>q\<rfloor> else None | _ \<Rightarrow> None)"

definition dbItem_set :: "dbItem \<Rightarrow> string \<Rightarrow> jsval \<Rightarrow> dbItem" where
  "dbItem_set c k v =
     (if k = ''row'' then
        (case as_integer v of
           Some i \<Rightarrow> \<lparr>props = filter (\<lambda>(k', x). k' \<noteq> ''row'') (props c), row = i\<rparr>
         | None \<Rightarrow> c\<lparr>props := js_set (props c) ''row'' v\<rparr>)
      else if k = ''__proto__'' \<and> \<not> is_object v then c
      else c\<lparr>props := js_set (props c) k v\<rparr>)"

text \<open>The row that a record gives to a call of the sheet.  Modelled from the spec: the
  medium addresses cells by 1-based row and column numbers (section 6); a call whose row
  is no integer is taken to fail.\<close>

definition row_number :: "dbItem \<Rightarrow> int option" where
  "row_number c = (if js_in ''row'' (props c) then None else Some (row c))"

text \<open>The schema fields that stay own data properties of a \<^verbatim>\<open>DBItem\<close> filled from a row
  of cells: what is assigned to \<^verbatim>\<open>row\<close> is overwritten by the row number, and the
  assignment of the value of a cell to \<^verbatim>\<open>__proto__\<close> does nothing.\<close>

definition own_fields :: "(string \<times> 'a) list \<Rightarrow> (string \<times> 'a) list" where
  "own_fields ks = filter (\<lambda>(key, off). key \<noteq> ''row'' \<and> key \<noteq> ''__proto__'') ks"

text \<open>An argument of type \<^verbatim>\<open>string | string[]\<close>; \<open>flat\<close> is \<^verbatim>\<open>[x].flat()\<close>.\<close>

datatype keyarg = Str string | Arr "string list"

fun flat :: "keyarg \<Rightarrow> string list" where
  "flat (Str s) = [s]"
| "flat (Arr ks) = ks"

definition flat_opt :: "keyarg option \<Rightarrow> string list" where
  "flat_opt a = (case a of None \<Rightarrow> [] | Some x \<Rightarrow> flat x)"

subsection \<open>Column letters\<close>

function letter_loop :: "int \<Rightarrow> string \<Rightarrow> string" where
  "letter_loop columnNumber string =
     (let remain = columnNumber mod 26;
          columnNumber' = columnNumber div 26;
          string' = char_of (64 + remain) # string
      in if columnNumber' > 0 then letter_loop columnNumber' string' else string')"
  by pat_completeness auto
termination
  by (relation "measure (\<lambda>(n, s). nat n)") auto

definition letter :: "int \<Rightarrow> error + string" where
  "letter columnNumber =
     (if columnNumber < 1 then Inl (Error ''Wrong column number'')
      else if columnNumber < 27 then Inr [char_of (64 + columnNumber)]
      else Inr (letter_loop columnNumber []))"

text \<open>The label a spreadsheet gives column \<open>n\<close>: \<open>A\<close>..\<open>Z\<close>, \<open>AA\<close>..\<open>AZ\<close>, \<open>BA\<close>, ...
  (the claim's words, for comparison with \<open>letter\<close>).\<close>

function column_label :: "nat \<Rightarrow> string" where
  "column_label n =
     (if n = 0 then []
      else column_label ((n - 1) div 26) @ [char_of (65 + (n - 1) mod 26)])"
  by pat_completeness auto
termination
  by (relation "measure id") auto

subsection \<open>Derived schema data and the cached region\<close>

definition keysColumns :: "keys \<Rightarrow> (string \<times> int) list" where
  "keysColumns ks = map (\<lambda>(key, off). (key, int off + 1)) ks"

definition lastDataColumn :: "keys \<Rightarrow> int" where
  "lastDataColumn ks = Max (set (map snd (keysColumns ks)))"

text \<open>The range read by the getter \<^verbatim>\<open>values\<close>, in A1 notation.\<close>

definition values_range :: "jsprims \<Rightarrow> db \<Rightarrow> error + string" where
  "values_range P d =
     (case letter (dataColumnFirst d) of Inl e \<Rightarrow> Inl e
      | Inr a \<Rightarrow>
        (case letter (case dataColumnsNum d of
                        None \<Rightarrow> lastDataColumn (keys d)
                      | Some n \<Rightarrow> if n \<noteq> 0 then dataColumnFirst d + n - 1
                                  else lastDataColumn (keys d)) of
           Inl e \<Rightarrow> Inl e
         | Inr b \<Rightarrow> Inr (a @ numberToString P (of_int (dataRowFirst d)) @ '':'' @ b)))"

definition filterKeysFrom :: "keys \<Rightarrow> string list \<Rightarrow> keys" where
  "filterKeysFrom ks ignoreKeys = filter (\<lambda>(key, off). key \<notin> set ignoreKeys) ks"

text \<open>The getter \<^verbatim>\<open>dbItems\<close>: one record per row of the region read, and the flags
  \<^verbatim>\<open>_rowsEmptyStatuses\<close> it computes on the way.\<close>

definition rowsEmptyStatuses :: "jsval list list \<Rightarrow> bool list" where
  "rowsEmptyStatuses values = map (\<lambda>r. list_all (\<lambda>v. strict_eq v (JStr [])) r) values"

definition dbItems :: "db \<Rightarrow> jsval list list \<Rightarrow> dbItem list" where
  "dbItems d values =
     map (\<lambda>(i, r). \<lparr>props = map (\<lambda>(key, off). (key, js_nth r off)) (own_fields (keys d)),
                    row = int i + dataRowFirst d\<rparr>)
         (enumerate 0 values)"

definition parseRowValuesToItem :: "jsval list \<Rightarrow> int \<Rightarrow> keys \<Rightarrow> dbItem" where
  "parseRowValuesToItem values r ks =
     \<lparr>props = map (\<lambda>(key, off).
                  (key, if strict_eq (js_nth values off) (JStr []) then JNull
                        else js_nth values off)) (own_fields ks),
      row = r\<rparr>"

text \<open>\<^verbatim>\<open>getDataItemByRow\<close> from the answer of the sheet on: \<open>rowValues\<close> is the row that
  \<^verbatim>\<open>getSheetValues\<close> returns.\<close>

definition getDataItemByRow ::
  "db \<Rightarrow> jsval list \<Rightarrow> int \<Rightarrow> keyarg option \<Rightarrow> (dbItem \<Rightarrow> dbItem) option \<Rightarrow> dbItem" where
  "getDataItemByRow d rowValues r ignoreKeys itemCB =
     (let ks = (case ignoreKeys of None \<Rightarrow> keys d
                | Some ig \<Rightarrow> filterKeysFrom (keys d) (flat ig));
          item = parseRowValuesToItem rowValues r ks
      in case itemCB of None \<Rightarrow> item | Some cb \<Rightarrow> cb item)"

text \<open>The whole method: it asks the sheet for one row from the first data column on,
  \<^verbatim>\<open>getSheetValues(row, dataColumnFirst, 1, dataColumnsNum ?? lastDataColumn - dataColumnFirst + 1)\<close>,
  and takes the first row of the answer; \<open>read\<close> is \<^verbatim>\<open>getSheetValues\<close> of the sheet.\<close>

type_synonym sheetRead = "int \<Rightarrow> int \<Rightarrow> int \<Rightarrow> int \<Rightarrow> error + jsval list list"

definition row_columns :: "db \<Rightarrow> int" where
  "row_columns d =
     (case dataColumnsNum d of None \<Rightarrow> lastDataColumn (keys d) - dataColumnFirst d + 1
      | Some n \<Rightarrow> n)"

definition getDataItemByRow_at ::
  "db \<Rightarrow> sheetRead \<Rightarrow> int \<Rightarrow> keyarg option \<Rightarrow> (dbItem \<Rightarrow> dbItem) option \<Rightarrow> error + dbItem" where
  "getDataItemByRow_at d read r ignoreKeys itemCB =
     (case read r (dataColumnFirst d) 1 (row_columns d) of Inl e \<Rightarrow> Inl e
      | Inr [] \<Rightarrow> Inl (TypeError ''Cannot read properties of undefined'')
      | Inr (rowValues # rest) \<Rightarrow> Inr (getDataItemByRow d rowValues r ignoreKeys itemCB))"

text \<open>The projection of a record on the keys kept when \<^verbatim>\<open>ignoreKeys\<close> is given.\<close>

definition copy_item :: "db \<Rightarrow> keyarg option \<Rightarrow> dbItem \<Rightarrow> dbItem" where
  "copy_item d ignoreKeys dbItem =
     (case ignoreKeys of None \<Rightarrow> dbItem
      | Some ig \<Rightarrow>
          \<lparr>props = map (\<lambda>(key, off). (key, js_get (props dbItem) key))
                        (own_fields (filterKeysFrom (keys d) (flat ig))),
           row = row dbItem\<rparr>)"

definition getDataItemsArray ::
  "db \<Rightarrow> jsval list list \<Rightarrow> (dbItem \<Rightarrow> bool) option \<Rightarrow> (dbItem \<Rightarrow> dbItem) option
     \<Rightarrow> keyarg option \<Rightarrow> dbItem list" where
  "getDataItemsArray d values filterCB itemCB ignoreKeys =
     map (\<lambda>(e, dbItem). case itemCB of None \<Rightarrow> copy_item d ignoreKeys dbItem
                          | Some cb \<Rightarrow> cb (copy_item d ignoreKeys dbItem))
       (filter (\<lambda>(e, dbItem). \<not> e \<and> (case filterCB of None \<Rightarrow> True | Some f \<Rightarrow> f dbItem))
          (zip (rowsEmptyStatuses values) (dbItems d values)))"

subsection \<open>Hash keys and grouping\<close>

fun checkKeys :: "keys \<Rightarrow> keyarg \<Rightarrow> error + unit" where
  "checkKeys ks (Str s) = (if in_object s ks then Inr () else Inl (Error ''DB: No key''))"
| "checkKeys ks (Arr []) = Inl (Error ''DB: Invalid keys'')"
| "checkKeys ks (Arr us) =
     (if list_all (\<lambda>key. in_object key ks) us then Inr () else Inl (Error ''DB: No key''))"

text \<open>The function returned by \<^verbatim>\<open>_getKeysHashFunction\<close>.  With one key the hash is the
  field's value itself; with several, \<^verbatim>\<open>+=\<close> concatenates strings.\<close>

fun hashFunction :: "jsprims \<Rightarrow> keyarg \<Rightarrow> dataItem \<Rightarrow> jsval" where
  "hashFunction P (Str s) item = js_get item s"
| "hashFunction P (Arr []) item = JUndefined"
| "hashFunction P (Arr [k]) item = js_get item k"
| "hashFunction P (Arr (k # us)) item =
     JStr (foldl (\<lambda>hash u. hash @ ''|'' @ toString P (js_get item u))
             (toString P (js_get item k)) us)"

definition getKeysHashFunction ::
  "jsprims \<Rightarrow> keys \<Rightarrow> keyarg \<Rightarrow> error + (dataItem \<Rightarrow> jsval)" where
  "getKeysHashFunction P ks useKeys =
     (case checkKeys ks useKeys of Inl e \<Rightarrow> Inl e
      | Inr u \<Rightarrow> Inr (hashFunction P useKeys))"

text \<open>The hash of a record, through \<^verbatim>\<open>keyCB\<close> when given, and the property name under
  which the record is stored: the hash converted to a property key.\<close>

definition hashValue :: "(dataItem \<Rightarrow> jsval) \<Rightarrow> (jsval \<Rightarrow> jsval) option \<Rightarrow> dataItem \<Rightarrow> jsval" where
  "hashValue hf kcb item = (case kcb of None \<Rightarrow> hf item | Some cb \<Rightarrow> cb (hf item))"

definition hashKey :: "jsprims \<Rightarrow> (dataItem \<Rightarrow> jsval) \<Rightarrow> (jsval \<Rightarrow> jsval) option \<Rightarrow> dataItem \<Rightarrow> string" where
  "hashKey P hf kcb item = toString P (hashValue hf kcb item)"

text \<open>The loop of \<^verbatim>\<open>getDataItemsObject\<close> over the rows that are not empty: the hash is
  taken from the record of \<^verbatim>\<open>dbItems\<close>, and \<^verbatim>\<open>items[hashKey] = item\<close> has no test of what
  is there.\<close>

fun getDataItemsObject_loop ::
  "jsprims \<Rightarrow> db \<Rightarrow> (dbItem \<Rightarrow> bool) option \<Rightarrow> (dbItem \<Rightarrow> jsval \<Rightarrow> dbItem) option
     \<Rightarrow> (jsval \<Rightarrow> jsval) option \<Rightarrow> keyarg option \<Rightarrow> (dataItem \<Rightarrow> jsval)
     \<Rightarrow> (bool \<times> dbItem) list \<Rightarrow> (string \<times> dbItem) list \<Rightarrow> (string \<times> dbItem) list" where
  "getDataItemsObject_loop P d fcb icb kcb ig hf [] items = items"
| "getDataItemsObject_loop P d fcb icb kcb ig hf ((e, dbItem) # rest) items =
     (if e then getDataItemsObject_loop P d fcb icb kcb ig hf rest items
      else if (case fcb of None \<Rightarrow> False | Some f \<Rightarrow> \<not> f dbItem)
        then getDataItemsObject_loop P d fcb icb kcb ig hf rest items
      else
        (let h = hashKey P hf kcb (own_props dbItem);
             item = copy_item d ig dbItem;
             item' = (case icb of None \<Rightarrow> item
                      | Some cb \<Rightarrow> cb item (hashValue hf kcb (own_props dbItem)))
         in getDataItemsObject_loop P d fcb icb kcb ig hf rest (js_set items h item')))"

definition getDataItemsObject ::
  "jsprims \<Rightarrow> db \<Rightarrow> jsval list list \<Rightarrow> keyarg \<Rightarrow> (dbItem \<Rightarrow> bool) option
     \<Rightarrow> (dbItem \<Rightarrow> jsval \<Rightarrow> dbItem) option \<Rightarrow> (jsval \<Rightarrow> jsval) option \<Rightarrow> keyarg option
     \<Rightarrow> error + (string \<times> dbItem) list" where
  "getDataItemsObject P d values useKeys fcb icb kcb ig =
     (case getKeysHashFunction P (keys d) useKeys of Inl e \<Rightarrow> Inl e
      | Inr hf \<Rightarrow>
          Inr (getDataItemsObject_loop P d fcb icb kcb ig hf
                 (zip (rowsEmptyStatuses values) (dbItems d values)) []))"

text \<open>\<^verbatim>\<open>_parseDataItemsArrayToObject\<close> tests \<^verbatim>\<open>hashKey in dataItemsObject\<close> before storing.\<close>

fun parseDataItemsArrayToObject_loop ::
  "jsprims \<Rightarrow> (dataItem \<Rightarrow> jsval) \<Rightarrow> (jsval \<Rightarrow> jsval) option \<Rightarrow> dataItem list
     \<Rightarrow> (string \<times> dataItem) list \<Rightarrow> error + (string \<times> dataItem) list" where
  "parseDataItemsArrayToObject_loop P hf kcb [] obj = Inr obj"
| "parseDataItemsArrayToObject_loop P hf kcb (item # rest) obj =
     (let h = hashKey P hf kcb item
      in if in_DBItemsObject h obj then Inl (Error ''Hash already exists in dataItemsObject'')
         else parseDataItemsArrayToObject_loop P hf kcb rest (js_set obj h item))"

definition parseDataItemsArrayToObject ::
  "jsprims \<Rightarrow> keys \<Rightarrow> dataItem list \<Rightarrow> keyarg \<Rightarrow> (jsval \<Rightarrow> jsval) option
     \<Rightarrow> error + (string \<times> dataItem) list" where
  "parseDataItemsArrayToObject P ks dataItems useKeys kcb =
     (case getKeysHashFunction P ks useKeys of Inl e \<Rightarrow> Inl e
      | Inr hf \<Rightarrow> parseDataItemsArrayToObject_loop P hf kcb dataItems [])"

subsection \<open>Schema resolution\<close>

text \<open>The \<^verbatim>\<open>keys\<close> argument of the constructor: a list of names, a mapping from names
  to offsets, or some other value.  A resolved schema maps names to offsets as the
  caller gave them (\<open>rawKeys\<close>).\<close>

type_synonym rawKeys = "(string \<times> jsval) list"

datatype keysArg = KeysArray "string list" | KeysObject rawKeys | KeysOther jsval

fun validate_array :: "string list \<Rightarrow> nat \<Rightarrow> rawKeys \<Rightarrow> error + rawKeys" where
  "validate_array [] i keysObject = Inr keysObject"
| "validate_array (k # rest) i keysObject =
     (if in_object k keysObject
      then Inl (Error ''keys array must contain only unique values'')
      else validate_array rest (Suc i) (js_set keysObject k (JNum (of_nat i))))"

fun validate_object :: "rawKeys \<Rightarrow> error + unit" where
  "validate_object [] = Inr ()"
| "validate_object ((key, v) # rest) =
     (case v of
        JNum q \<Rightarrow> if q < 0 then Inl (Error ''key value can not be less then 0'')
                  else validate_object rest
      | JNaN \<Rightarrow> validate_object rest
      | _ \<Rightarrow> Inl (TypeError ''key value is not a number''))"

fun validateAndSetKeys :: "keysArg \<Rightarrow> error + rawKeys" where
  "validateAndSetKeys (KeysOther v) = Inl (TypeError ''keys must be an object or array'')"
| "validateAndSetKeys (KeysArray ks) =
     (if ks = [] then Inl (Error ''Have no keys'') else validate_array ks 0 [])"
| "validateAndSetKeys (KeysObject m) =
     (if m = [] then Inl (Error ''Have no keys'')
      else case validate_object m of Inl e \<Rightarrow> Inl e | Inr u \<Rightarrow> Inr m)"

text \<open>\<^verbatim>\<open>typeof v == 'number'\<close> and \<^verbatim>\<open>v < 0\<close> for a number, to state what the object
  branch accepts.\<close>

definition is_number :: "jsval \<Rightarrow> bool" where
  "is_number v = (case v of JNum q \<Rightarrow> True | JNaN \<Rightarrow> True | _ \<Rightarrow> False)"

definition less_zero :: "jsval \<Rightarrow> bool" where
  "less_zero v = (case v of JNum q \<Rightarrow> q < 0 | _ \<Rightarrow> False)"

text \<open>\<^verbatim>\<open>_getKeysFromSheet\<close> from the answer of the sheet on: \<open>header\<close> is the first row
  of the values of the range of the keys row.  \<^verbatim>\<open>acc[value] = index\<close> does nothing when
  the name is \<^verbatim>\<open>__proto__\<close>.\<close>

definition isItemHasData :: "jsprims \<Rightarrow> rawKeys \<Rightarrow> bool" where
  "isItemHasData P item = list_ex (\<lambda>(key, v). key \<noteq> ''row'' \<and> \<not> loose_eq P v JNull) item"

definition getKeysFromSheet :: "jsprims \<Rightarrow> jsval list \<Rightarrow> error + rawKeys" where
  "getKeysFromSheet P header =
     (let ks = foldl (\<lambda>acc (index, v).
                  if truthy v \<and> toString P v \<noteq> ''__proto__''
                  then js_set acc (toString P v) (JNum (of_nat index)) else acc)
                [] (enumerate 0 header)
      in if isItemHasData P ks then Inr ks else Inl (Error ''DB: No keys found on sheet''))"

subsection \<open>Calls to the sheet, rows to write\<close>

datatype call =
    SetValues int int "jsval list list"
  | InsertRowsBefore int int
  | InsertRowsAfter int int
  | DeleteRows int int

definition setValues :: "int \<Rightarrow> int \<Rightarrow> jsval list list \<Rightarrow> call list" where
  "setValues r c values =
     (case values of [] \<Rightarrow> []
      | v # vs \<Rightarrow> if v = [] then [] else [SetValues r c values])"

definition getEmptyArray :: "nat \<Rightarrow> int \<Rightarrow> jsval \<Rightarrow> error + jsval list list" where
  "getEmptyArray rows cols filler =
     (if cols < 0 then Inl (RangeError ''Invalid array length'')
      else Inr (replicate rows (replicate (nat cols) filler)))"

text \<open>\<^verbatim>\<open>_parseDataToArray\<close>, for records given by their own properties and the name of
  their constructor: \<^verbatim>\<open>if (key in item) dataArray[i][keys[key]] = item[key]\<close>.\<close>

definition fill_row :: "string \<Rightarrow> keys \<Rightarrow> dataItem \<Rightarrow> jsval list \<Rightarrow> jsval list" where
  "fill_row cls ks item r =
     foldl (\<lambda>r (key, off). if in_object key item then js_array_set r off (obj_get cls item key)
                             else r)
       r ks"

definition parseDataToArray ::
  "db \<Rightarrow> string \<Rightarrow> dataItem list \<Rightarrow> jsval \<Rightarrow> error + jsval list list" where
  "parseDataToArray d cls dataItems defaultValue =
     (case getEmptyArray (length dataItems)
             (lastDataColumn (keys d) - dataColumnFirst d + 1) defaultValue of
        Inl e \<Rightarrow> Inl e
      | Inr dataArray \<Rightarrow>
          Inr (map (\<lambda>(item, r). fill_row cls (keys d) item r) (zip dataItems dataArray)))"

subsection \<open>Contiguous chunks: bulk update and bulk delete\<close>

record chunk =
  firstRow :: int
  lastRow :: int
  indexes :: "nat list"

text \<open>The loop of \<^verbatim>\<open>_deleteDataItemsByChunks\<close>, over the records before the last one,
  from the end of the array to its start; \<^verbatim>\<open>chunks[c]\<close> is the last chunk.\<close>

fun delete_chunks_loop :: "dbItem list \<Rightarrow> chunk list \<Rightarrow> chunk list" where
  "delete_chunks_loop [] chunks = chunks"
| "delete_chunks_loop (item # rest) chunks =
     (if firstRow (last chunks) - row item \<noteq> 1
      then delete_chunks_loop rest
             (chunks @ [\<lparr>firstRow = row item, lastRow = row item, indexes = []\<rparr>])
      else delete_chunks_loop rest
             (butlast chunks @ [(last chunks)\<lparr>firstRow := row item\<rparr>]))"

definition deleteDataItemsByChunks :: "dbItem list \<Rightarrow> error + call list" where
  "deleteDataItemsByChunks itemsArray =
     (if itemsArray = [] then Inl (TypeError ''Cannot read properties of undefined'')
      else
        Inr (map (\<lambda>chunk. DeleteRows (firstRow chunk) (lastRow chunk - firstRow chunk + 1))
               (delete_chunks_loop (rev (butlast itemsArray))
                  [\<lparr>firstRow = row (last itemsArray), lastRow = row (last itemsArray),
                    indexes = []\<rparr>])))"

text \<open>\<^verbatim>\<open>deleteDataItems\<close>, on the array or on the values of the object it is given.  The
  comparator of the source orders records with different rows by row.\<close>

definition deleteDataItems :: "dbItem list \<Rightarrow> error + call list" where
  "deleteDataItems items =
     (let itemsArray = sort_key row items
      in if itemsArray = [] then Inr [] else deleteDataItemsByChunks itemsArray)"

text \<open>A maximal run of consecutive rows of a set, by its first row and its length
  (the claim's words, for comparison with the calls of \<open>deleteDataItems\<close>).\<close>

definition maximal_run :: "int set \<Rightarrow> int \<times> int \<Rightarrow> bool" where
  "maximal_run R = (\<lambda>(f, n). 1 \<le> n \<and> {f ..< f + n} \<subseteq> R \<and> f - 1 \<notin> R \<and> f + n \<notin> R)"

text \<open>The same loop with the current chunk as a pair of arguments, over the rows alone;
  \<open>run_of\<close> turns a chunk into the arguments of its \<^verbatim>\<open>deleteRows\<close> call.\<close>

fun runs_down :: "int \<Rightarrow> int \<Rightarrow> int list \<Rightarrow> (int \<times> int) list" where
  "runs_down f l [] = [(f, l)]"
| "runs_down f l (r # rs) =
     (if f - r \<noteq> 1 then (f, l) # runs_down r r rs else runs_down r l rs)"

definition mk_chunk :: "int \<times> int \<Rightarrow> chunk" where
  "mk_chunk = (\<lambda>(f, l). \<lparr>firstRow = f, lastRow = l, indexes = []\<rparr>)"

definition run_of :: "int \<times> int \<Rightarrow> int \<times> int" where
  "run_of = (\<lambda>(a, b). (a, b - a + 1))"

text \<open>The loop of \<^verbatim>\<open>_updateDataItemsByChunks\<close>, over the records after the first one.
  When the property \<^verbatim>\<open>row\<close> of a record holds no integer, a call of the sheet gets a row
  that is none, and fails (see \<open>row_number\<close>).\<close>

fun update_chunks_loop :: "(nat \<times> dbItem) list \<Rightarrow> chunk list \<Rightarrow> chunk list" where
  "update_chunks_loop [] chunks = chunks"
| "update_chunks_loop ((i, item) # rest) chunks =
     (if row item - lastRow (last chunks) \<noteq> 1
      then update_chunks_loop rest
             (chunks @ [\<lparr>firstRow = row item, lastRow = row item, indexes = [i]\<rparr>])
      else update_chunks_loop rest
             (butlast chunks @
                [(last chunks)\<lparr>lastRow := row item, indexes := indexes (last chunks) @ [i]\<rparr>]))"

fun write_chunks :: "db \<Rightarrow> dbItem list \<Rightarrow> chunk list \<Rightarrow> error + call list" where
  "write_chunks d itemsArray [] = Inr []"
| "write_chunks d itemsArray (chunk # rest) =
     (case parseDataToArray d ''DBItem'' (map (\<lambda>i. own_props (itemsArray ! i)) (indexes chunk))
             JNull of
        Inl e \<Rightarrow> Inl e
      | Inr chunkItemsArray \<Rightarrow>
          (case write_chunks d itemsArray rest of Inl e \<Rightarrow> Inl e
           | Inr calls \<Rightarrow>
               Inr (setValues (firstRow chunk) (dataColumnFirst d) chunkItemsArray @ calls)))"

definition updateDataItemsByChunks :: "db \<Rightarrow> dbItem list \<Rightarrow> error + call list" where
  "updateDataItemsByChunks d itemsArray =
     (case itemsArray of
        [] \<Rightarrow> Inl (TypeError ''Cannot read properties of undefined'')
      | item # rest \<Rightarrow>
          if list_ex (\<lambda>item. row_number item = None) itemsArray then Inl (Error ''no such row'')
          else
            write_chunks d itemsArray
              (update_chunks_loop (enumerate 1 rest)
                 [\<lparr>firstRow = row item, lastRow = row item, indexes = [0]\<rparr>]))"

text \<open>\<^verbatim>\<open>updateDataItems\<close>; \<open>values\<close> is the cached region.  Each record given is replaced by
  the record of \<^verbatim>\<open>dbItems\<close> at its row, after its own properties that name a schema field
  are copied there; two records given with the same row end as the same object.  The
  comparator of the source orders records with different rows by row.\<close>

definition item_index :: "db \<Rightarrow> jsval list list \<Rightarrow> dbItem \<Rightarrow> nat option" where
  "item_index d values item =
     (case row_number item of None \<Rightarrow> None
      | Some r \<Rightarrow> if dataRowFirst d \<le> r \<and> r < dataRowFirst d + int (length values)
                  then Some (nat (r - dataRowFirst d)) else None)"

definition updateDataItems :: "db \<Rightarrow> jsval list list \<Rightarrow> dbItem list \<Rightarrow> error + call list" where
  "updateDataItems d values items =
     (let itemsArray = sort_key row items
      in if itemsArray = [] then Inr []
         else if list_ex (\<lambda>item. item_index d values item = None) itemsArray
         then Inl (TypeError ''Cannot set properties of undefined'')
         else
           (let currentItems =
                  foldl (\<lambda>cur item.
                           cur[the (item_index d values item) :=
                                 foldl (\<lambda>c (key, v). if in_object key (keys d) then dbItem_set c key v
                                                      else c)
                                   (cur ! the (item_index d values item)) (own_props item)])
                    (dbItems d values) itemsArray
            in updateDataItemsByChunks d
                 (map (\<lambda>item. currentItems ! the (item_index d values item)) itemsArray)))"

subsection \<open>Insert and replace\<close>

text \<open>\<^verbatim>\<open>insertDataItems\<close>; \<open>sheetLastRow\<close> is the answer of \<^verbatim>\<open>getLastRow\<close>.\<close>

definition insertDataItems ::
  "db \<Rightarrow> int \<Rightarrow> dataItem list \<Rightarrow> jsval \<Rightarrow> bool \<Rightarrow> error + call list" where
  "insertDataItems d sheetLastRow dataItems defaultValue growUp =
     (case parseDataToArray d ''Object'' dataItems defaultValue of Inl e \<Rightarrow> Inl e
      | Inr values \<Rightarrow>
          if values = [] then Inr []
          else if growUp
          then Inr (InsertRowsBefore (dataRowFirst d) (int (length values))
                    # setValues (dataRowFirst d) (dataColumnFirst d) values)
          else Inr (InsertRowsAfter (if sheetLastRow < dataRowFirst d then dataRowFirst d else sheetLastRow)
                      (int (length values))
                    # setValues (if sheetLastRow < dataRowFirst d then dataRowFirst d else sheetLastRow + 1)
                        (dataColumnFirst d) values))"

text \<open>\<^verbatim>\<open>_fit\<close> as \<^verbatim>\<open>replaceData\<close> calls it; \<open>maxRows\<close> is the answer of \<^verbatim>\<open>getMaxRows\<close>.\<close>

definition fit :: "db \<Rightarrow> int \<Rightarrow> int \<Rightarrow> call list" where
  "fit d maxRows dataRowsNum =
     (let maxRowIndex = maxRows - 1;
          difference = (maxRowIndex - dataRowFirst d + 1) - dataRowsNum
      in if difference = 0 then []
         else if difference > 0 then [DeleteRows (maxRowIndex - difference + 1) difference]
         else [InsertRowsAfter maxRowIndex (- difference)])"

text \<open>\<^verbatim>\<open>replaceData\<close> after \<^verbatim>\<open>_fit\<close>.\<close>

definition replaceData :: "db \<Rightarrow> dataItem list \<Rightarrow> jsval \<Rightarrow> error + call list" where
  "replaceData d dataItems defaultValue =
     (case parseDataToArray d ''Object'' dataItems defaultValue of Inl e \<Rightarrow> Inl e
      | Inr values \<Rightarrow> Inr (setValues (dataRowFirst d) (dataColumnFirst d) values))"

subsection \<open>Point update\<close>

text \<open>\<^verbatim>\<open>for (key of controlKeys)\<close> and \<^verbatim>\<open>controlKeys.length\<close> for a string or an array
  of strings.\<close>

fun for_of :: "keyarg \<Rightarrow> string list" where
  "for_of (Str s) = map (\<lambda>c. [c]) s"
| "for_of (Arr ks) = ks"

fun keyarg_length :: "keyarg \<Rightarrow> nat" where
  "keyarg_length (Str s) = length s"
| "keyarg_length (Arr ks) = length ks"

text \<open>The copy loop shared by \<^verbatim>\<open>updateDataItemByRow\<close> and the default \<^verbatim>\<open>updateCB\<close>:
  \<^verbatim>\<open>for (key in keys) if (key in n) c[key] = n[key]\<close>, for a plain object \<open>n\<close>.\<close>

definition copy_fields :: "keys \<Rightarrow> dbItem \<Rightarrow> dataItem \<Rightarrow> dbItem" where
  "copy_fields ks c n =
     foldl (\<lambda>c (key, off). if in_object key n then dbItem_set c key (obj_get ''Object'' n key)
                             else c)
       c ks"

text \<open>The control loop: \<^verbatim>\<open>if (currentDataItem[key] !== dataItem[key]) return false\<close>.\<close>

definition control_mismatch :: "dbItem \<Rightarrow> dataItem \<Rightarrow> keyarg option \<Rightarrow> bool" where
  "control_mismatch currentDataItem dataItem controlKeys =
     (case controlKeys of None \<Rightarrow> False
      | Some ck \<Rightarrow>
          keyarg_length ck > 0 \<and>
          list_ex (\<lambda>key. \<not> strict_eq (dbItem_get currentDataItem key)
                                      (obj_get ''Object'' dataItem key))
            (for_of ck))"

text \<open>\<^verbatim>\<open>updateDataItemByRow\<close>; \<open>read\<close> is \<^verbatim>\<open>getSheetValues\<close> of the sheet.  The result is
  the boolean returned and the calls issued.\<close>

definition updateDataItemByRow ::
  "db \<Rightarrow> sheetRead \<Rightarrow> int \<Rightarrow> dataItem \<Rightarrow> keyarg option \<Rightarrow> keyarg option
     \<Rightarrow> error + (bool \<times> call list)" where
  "updateDataItemByRow d read r dataItem controlKeys ignoreKeys =
     (case getDataItemByRow_at d read r None None of Inl e \<Rightarrow> Inl e
      | Inr currentDataItem \<Rightarrow>
          if control_mismatch currentDataItem dataItem controlKeys then Inr (False, [])
          else
            (let ks = filterKeysFrom (keys d) (flat_opt controlKeys @ flat_opt ignoreKeys);
                 newItem = copy_fields ks currentDataItem dataItem
             in case parseDataToArray d ''DBItem'' [own_props newItem] JNull of Inl e \<Rightarrow> Inl e
                | Inr values \<Rightarrow>
                    (case row_number newItem of
                       None \<Rightarrow> if setValues 0 (dataColumnFirst d) values = [] then Inr (True, [])
                               else Inl (Error ''no such row'')
                     | Some i \<Rightarrow> Inr (True, setValues i (dataColumnFirst d) values))))"

subsection \<open>Merge\<close>

datatype dataItems = ItemsArray "dataItem list" | ItemsObject "(string \<times> dataItem) list"

record mergeOptions =
  isUpdateCB :: "(dbItem \<Rightarrow> dataItem \<Rightarrow> bool) option"
  updateCB :: "(dbItem \<Rightarrow> dataItem \<Rightarrow> dbItem) option"
  isDeleteCB :: "(dbItem \<Rightarrow> bool) option"
  filterCB :: "(dbItem \<Rightarrow> bool) option"
  keyCB :: "(jsval \<Rightarrow> jsval) option"
  ignoreKeys :: "keyarg option"

definition comparsionKeys :: "keys \<Rightarrow> keyarg \<Rightarrow> keyarg option \<Rightarrow> keys" where
  "comparsionKeys ks useKeys ig = filterKeysFrom ks (flat useKeys @ flat_opt ig)"

text \<open>The defaults of \<^verbatim>\<open>isUpdateCB\<close> and \<^verbatim>\<open>updateCB\<close>:
  \<^verbatim>\<open>for (key in comparsionKeys) { if (key in n && c[key] != n[key]) return true }\<close> and
  \<^verbatim>\<open>for (key in comparsionKeys) { if (key in n) c[key] = n[key] }\<close>.\<close>

definition default_isUpdateCB :: "jsprims \<Rightarrow> keys \<Rightarrow> dbItem \<Rightarrow> dataItem \<Rightarrow> bool" where
  "default_isUpdateCB P ck c n =
     list_ex (\<lambda>(key, off). in_object key n
                             \<and> \<not> loose_eq P (dbItem_get c key) (obj_get ''Object'' n key)) ck"

definition default_updateCB :: "keys \<Rightarrow> dbItem \<Rightarrow> dataItem \<Rightarrow> dbItem" where
  "default_updateCB ck c n = copy_fields ck c n"

record mergeSets =
  currentItemsObj :: "(string \<times> dbItem) list"
  dataItemsObj :: "(string \<times> dataItem) list"
  itemsToUpdate :: "(string \<times> dbItem) list"
  itemsToInsert :: "(string \<times> dataItem) list"
  itemsToDelete :: "(string \<times> dbItem) list"
  updated :: nat
  inserted :: nat
  deleted :: nat

text \<open>The first loop of \<^verbatim>\<open>mergeDataItems\<close>, over the incoming records.\<close>

fun merge_loop ::
  "(dbItem \<Rightarrow> dataItem \<Rightarrow> bool) \<Rightarrow> (dbItem \<Rightarrow> dataItem \<Rightarrow> dbItem) \<Rightarrow> (string \<times> dataItem) list
     \<Rightarrow> mergeSets \<Rightarrow> mergeSets" where
  "merge_loop isU upd [] m = m"
| "merge_loop isU upd ((hash, item) # rest) m =
     (case map_of (currentItemsObj m) hash of
        Some currentItem \<Rightarrow>
          if isU currentItem item
          then merge_loop isU upd rest
                 (m\<lparr>itemsToUpdate := js_set (itemsToUpdate m) hash (upd currentItem item),
                    updated := updated m + 1\<rparr>)
          else merge_loop isU upd rest m
      | None \<Rightarrow>
          merge_loop isU upd rest
            (m\<lparr>itemsToInsert := js_set (itemsToInsert m) hash item,
               inserted := inserted m + 1\<rparr>))"

text \<open>The second loop, over the current records, run when \<^verbatim>\<open>isDeleteCB\<close> is given.\<close>

fun delete_loop :: "(dbItem \<Rightarrow> bool) \<Rightarrow> (string \<times> dbItem) list \<Rightarrow> mergeSets \<Rightarrow> mergeSets" where
  "delete_loop isD [] m = m"
| "delete_loop isD ((hash, currentItem) # rest) m =
     (if \<not> in_DBItemsObject hash (itemsToUpdate m) \<and> \<not> in_object hash (dataItemsObj m)
         \<and> isD currentItem
      then delete_loop isD rest
             (m\<lparr>itemsToDelete := js_set (itemsToDelete m) hash currentItem,
                deleted := deleted m + 1\<rparr>)
      else delete_loop isD rest m)"

text \<open>The incoming records as an object: the object given, or the array grouped by hash.\<close>

definition incoming_of ::
  "jsprims \<Rightarrow> db \<Rightarrow> dataItems \<Rightarrow> keyarg \<Rightarrow> mergeOptions \<Rightarrow> error + (string \<times> dataItem) list" where
  "incoming_of P d dataItems useKeys opts =
     (case dataItems of ItemsObject obj \<Rightarrow> Inr obj
      | ItemsArray xs \<Rightarrow> parseDataItemsArrayToObject P (keys d) xs useKeys (keyCB opts))"

definition empty_sets :: "(string \<times> dbItem) list \<Rightarrow> (string \<times> dataItem) list \<Rightarrow> mergeSets" where
  "empty_sets cur inc =
     \<lparr>currentItemsObj = cur, dataItemsObj = inc, itemsToUpdate = [],
      itemsToInsert = [], itemsToDelete = [], updated = 0, inserted = 0, deleted = 0\<rparr>"

text \<open>The two callbacks of the first loop: the ones given, or the defaults.\<close>

definition isUpdate_of ::
  "jsprims \<Rightarrow> db \<Rightarrow> keyarg \<Rightarrow> mergeOptions \<Rightarrow> dbItem \<Rightarrow> dataItem \<Rightarrow> bool" where
  "isUpdate_of P d useKeys opts =
     (case isUpdateCB opts of
        None \<Rightarrow> default_isUpdateCB P (comparsionKeys (keys d) useKeys (ignoreKeys opts))
      | Some f \<Rightarrow> f)"

definition update_of :: "db \<Rightarrow> keyarg \<Rightarrow> mergeOptions \<Rightarrow> dbItem \<Rightarrow> dataItem \<Rightarrow> dbItem" where
  "update_of d useKeys opts =
     (case updateCB opts of
        None \<Rightarrow> default_updateCB (comparsionKeys (keys d) useKeys (ignoreKeys opts))
      | Some f \<Rightarrow> f)"

text \<open>\<^verbatim>\<open>mergeDataItems\<close> up to the three sets and their counts.\<close>

definition merge_sets ::
  "jsprims \<Rightarrow> db \<Rightarrow> jsval list list \<Rightarrow> dataItems \<Rightarrow> keyarg \<Rightarrow> mergeOptions \<Rightarrow> error + mergeSets" where
  "merge_sets P d values dataItems useKeys opts =
     (case getDataItemsObject P d values useKeys (filterCB opts) None (keyCB opts) None of
        Inl e \<Rightarrow> Inl e
      | Inr cur \<Rightarrow>
          (case incoming_of P d dataItems useKeys opts of
             Inl e \<Rightarrow> Inl e
           | Inr inc \<Rightarrow>
               (let m = merge_loop (isUpdate_of P d useKeys opts) (update_of d useKeys opts) inc
                          (empty_sets cur inc)
                in Inr (case isDeleteCB opts of None \<Rightarrow> m
                        | Some isD \<Rightarrow> delete_loop isD cur m))))"


record counts =
  n_updated :: nat
  n_inserted :: nat
  n_deleted :: nat

text \<open>\<^verbatim>\<open>mergeDataItems\<close>: the sets are applied, updates first, then inserts, then
  deletes; \<open>sheetLastRow\<close> is the answer of \<^verbatim>\<open>getLastRow\<close> after the calls issued so far.\<close>

definition mergeDataItems ::
  "jsprims \<Rightarrow> db \<Rightarrow> jsval list list \<Rightarrow> (call list \<Rightarrow> int) \<Rightarrow> dataItems \<Rightarrow> keyarg \<Rightarrow> mergeOptions
     \<Rightarrow> error + (counts \<times> call list)" where
  "mergeDataItems P d values sheetLastRow dataItems useKeys opts =
     (case merge_sets P d values dataItems useKeys opts of Inl e \<Rightarrow> Inl e
      | Inr m \<Rightarrow>
          (case (if updated m \<noteq> 0
                 then updateDataItemsByChunks d (sort_key row (map snd (itemsToUpdate m)))
                 else Inr []) of
             Inl e \<Rightarrow> Inl e
           | Inr u \<Rightarrow>
               (case (if inserted m \<noteq> 0
                      then insertDataItems d (sheetLastRow u) (map snd (itemsToInsert m))
                             JNull False
                      else Inr []) of
                  Inl e \<Rightarrow> Inl e
                | Inr i \<Rightarrow>
                    (case (if deleted m \<noteq> 0 then deleteDataItems (map snd (itemsToDelete m))
                           else Inr []) of
                       Inl e \<Rightarrow> Inl e
                     | Inr dl \<Rightarrow>
                         Inr (\<lparr>n_updated = updated m, n_inserted = inserted m,
                               n_deleted = deleted m\<rparr>, u @ i @ dl)))))"

subsection \<open>The sheet\<close>

text \<open>
  Modelled from the spec: the hosting medium (the Grid Accessor of sections 4.2 and 6),
  which is no part of the sources.  A sheet is the list of its rows from row 1, a row the
  list of its cells from column 1, and a cell that the list does not reach is empty.
  \<^verbatim>\<open>write\<close> overwrites the addressed block; an absent value is represented on the medium
  by the empty string; \<^verbatim>\<open>deleteRows\<close> removes \<open>count\<close> rows from \<open>start_row\<close> on; inserted
  rows are empty.
\<close>

type_synonym sheet = "jsval list list"

definition stored :: "jsval \<Rightarrow> jsval" where
  "stored v = (if v = JNull \<or> v = JUndefined then JStr [] else v)"

definition cell :: "jsval list \<Rightarrow> nat \<Rightarrow> jsval" where
  "cell r j = (if j < length r then r ! j else JStr [])"

definition write_row :: "jsval list \<Rightarrow> nat \<Rightarrow> jsval list \<Rightarrow> jsval list" where
  "write_row old c new =
     map (\<lambda>j. if c \<le> j \<and> j < c + length new then stored (new ! (j - c)) else cell old j)
       [0 ..< max (length old) (c + length new)]"

definition sheet_row :: "sheet \<Rightarrow> nat \<Rightarrow> jsval list" where
  "sheet_row sh i = (if i < length sh then sh ! i else [])"

definition sheet_write :: "sheet \<Rightarrow> nat \<Rightarrow> nat \<Rightarrow> jsval list list \<Rightarrow> sheet" where
  "sheet_write sh r c block =
     map (\<lambda>i. if r \<le> i \<and> i < r + length block
               then write_row (sheet_row sh i) c (block ! (i - r)) else sheet_row sh i)
       [0 ..< max (length sh) (r + length block)]"

fun apply_call :: "sheet \<Rightarrow> call \<Rightarrow> sheet" where
  "apply_call sh (SetValues r c block) = sheet_write sh (nat r - 1) (nat c - 1) block"
| "apply_call sh (InsertRowsBefore r n) =
     take (nat r - 1) sh @ replicate (nat n) [] @ drop (nat r - 1) sh"
| "apply_call sh (InsertRowsAfter r n) = take (nat r) sh @ replicate (nat n) [] @ drop (nat r) sh"
| "apply_call sh (DeleteRows r n) = take (nat r - 1) sh @ drop (nat r - 1 + nat n) sh"

definition sheet_lastRow :: "sheet \<Rightarrow> int" where
  "sheet_lastRow sh = int (length (dropWhile (list_all (\<lambda>v. v = JStr [])) (rev sh)))"

text \<open>Modelled from the spec: \<^verbatim>\<open>read(row, col, height, width)\<close> returns the addressed
  block; a block without a cell is no range.  \<^verbatim>\<open>getMaxRows\<close> counts the rows of the
  sheet.\<close>

definition sheet_maxRows :: "sheet \<Rightarrow> int" where
  "sheet_maxRows sh = int (length sh)"

definition sheet_maxColumns :: "sheet \<Rightarrow> nat" where
  "sheet_maxColumns sh = foldr (\<lambda>r n. max (length r) n) sh 0"

definition getSheetValues :: "sheet \<Rightarrow> sheetRead" where
  "getSheetValues sh r c numRows numColumns =
     (if r < 1 \<or> c < 1 \<or> numRows < 1 \<or> numColumns < 1 then Inl (Error ''Range not found'')
      else Inr (map (\<lambda>i. map (cell (sheet_row sh i)) [nat c - 1 ..< nat c - 1 + nat numColumns])
                  [nat r - 1 ..< nat r - 1 + nat numRows]))"

text \<open>Modelled from the spec: the values of a range given in A1 notation, \<open>A2:B7\<close>;
  without the last row the range goes to the last row of the sheet (\<open>A2:B\<close>), without the
  last column to its last column (\<open>A1:1\<close>).  A text that is not of this form is no range.\<close>

definition is_upper :: "char \<Rightarrow> bool" where
  "is_upper c = (65 \<le> (of_char c :: nat) \<and> (of_char c :: nat) \<le> 90)"

definition is_digit :: "char \<Rightarrow> bool" where
  "is_digit c = (48 \<le> (of_char c :: nat) \<and> (of_char c :: nat) \<le> 57)"

definition label_column :: "string \<Rightarrow> nat" where
  "label_column s = foldl (\<lambda>n c. 26 * n + (of_char c - 64)) 0 s"

definition digits_number :: "string \<Rightarrow> nat" where
  "digits_number s = foldl (\<lambda>n c. 10 * n + (of_char c - 48)) 0 s"

definition a1_corner :: "string \<Rightarrow> (string \<times> string) option" where
  "a1_corner s =
     (if list_all is_digit (dropWhile is_upper s)
      then Some (takeWhile is_upper s, dropWhile is_upper s) else None)"

definition getRange_values :: "sheet \<Rightarrow> string \<Rightarrow> error + jsval list list" where
  "getRange_values sh a1 =
     (case (a1_corner (takeWhile (\<lambda>c. c \<noteq> CHR '':'') a1),
            a1_corner (drop 1 (dropWhile (\<lambda>c. c \<noteq> CHR '':'') a1))) of
        (Some (l1, r1), Some (l2, r2)) \<Rightarrow>
          if l1 = [] \<or> r1 = [] \<or> digits_number r1 = 0 then Inl (Error ''Range not found'')
          else Inr (map (\<lambda>i. map (cell (sheet_row sh i))
                              [label_column l1 - 1 ..<
                               (if l2 = [] then sheet_maxColumns sh else label_column l2)])
                      [digits_number r1 - 1 ..< (if r2 = [] then length sh else digits_number r2)])
      | _ \<Rightarrow> Inl (Error ''Range not found''))"

text \<open>The rows that the getter \<^verbatim>\<open>values\<close> reads: from the first data row to the end of the
  sheet, from the first data column to the last one.\<close>

definition region_values :: "db \<Rightarrow> sheet \<Rightarrow> jsval list list" where
  "region_values d sh =
     map (\<lambda>r. map (cell r)
            [nat (dataColumnFirst d) - 1 ..<
             nat (case dataColumnsNum d of
                    None \<Rightarrow> lastDataColumn (keys d)
                  | Some n \<Rightarrow> if n \<noteq> 0 then dataColumnFirst d + n - 1
                              else lastDataColumn (keys d))])
       (drop (nat (dataRowFirst d) - 1) sh)"

text \<open>A point update against a sheet: the boolean returned and the sheet after the calls.\<close>

definition update_on_sheet ::
  "db \<Rightarrow> sheet \<Rightarrow> int \<Rightarrow> dataItem \<Rightarrow> keyarg option \<Rightarrow> keyarg option \<Rightarrow> error + (bool \<times> sheet)" where
  "update_on_sheet d sh r dataItem controlKeys ig =
     (case updateDataItemByRow d (getSheetValues sh) r dataItem controlKeys ig of
        Inl e \<Rightarrow> Inl e
      | Inr (ok, calls) \<Rightarrow> Inr (ok, foldl apply_call sh calls))"

text \<open>A merge against a sheet: the counts returned and the sheet after the calls.\<close>

definition merge_on_sheet ::
  "jsprims \<Rightarrow> db \<Rightarrow> sheet \<Rightarrow> dataItems \<Rightarrow> keyarg \<Rightarrow> mergeOptions \<Rightarrow> error + (counts \<times> sheet)" where
  "merge_on_sheet P d sh dataItems useKeys opts =
     (case mergeDataItems P d (region_values d sh)
             (\<lambda>calls. sheet_lastRow (foldl apply_call sh calls)) dataItems useKeys opts of
        Inl e \<Rightarrow> Inl e
      | Inr (n, calls) \<Rightarrow> Inr (n, foldl apply_call sh calls))"

subsection \<open>The store and its sheet as a state\<close>

text \<open>What a store holds besides its settings: the property \<^verbatim>\<open>keys\<close> that \<^verbatim>\<open>_initOnce\<close>
  defines (not writable, not configurable) when the constructor is given keys, the cache
  \<^verbatim>\<open>_keys\<close> of the getter \<^verbatim>\<open>keys\<close> otherwise, and the cache \<^verbatim>\<open>_values\<close> of the region
  read.  \<^verbatim>\<open>_validateAndSetKeys\<close> replaces \<^verbatim>\<open>resetKeys\<close> by a function that throws, so that
  method throws exactly when the property is there.  The caches \<^verbatim>\<open>_keysColumns\<close>,
  \<^verbatim>\<open>_lastDataColumn\<close>, \<^verbatim>\<open>_keysLetters\<close> and \<^verbatim>\<open>_keysArray\<close> are computed from \<^verbatim>\<open>keys\<close> and
  cleared together with \<^verbatim>\<open>_keys\<close>, the records of \<^verbatim>\<open>_dbItems\<close> are computed from
  \<^verbatim>\<open>_values\<close> and cleared together with it; they are computed again at each use here,
  from the schema read at that use.  (The source keeps the records as computed when the
  region was cached; the two differ when \<^verbatim>\<open>resetKeys\<close> and a change of the header row come
  between the caching of the region and the use, with no \<^verbatim>\<open>resetCache\<close> after them.)\<close>

record store =
  keys_property :: "rawKeys option"
  keys_cache :: "rawKeys option"
  values_cache :: "jsval list list option"

definition new_store :: "keysArg option \<Rightarrow> error + store" where
  "new_store a =
     (case (case a of Some (KeysOther v) \<Rightarrow> if truthy v then a else None | _ \<Rightarrow> a) of
        None \<Rightarrow> Inr \<lparr>keys_property = None, keys_cache = None, values_cache = None\<rparr>
      | Some k \<Rightarrow>
          (case validateAndSetKeys k of Inl e \<Rightarrow> Inl e
           | Inr ks \<Rightarrow> Inr \<lparr>keys_property = Some ks, keys_cache = None, values_cache = None\<rparr>))"

text \<open>The settings that a \<open>db\<close> does not have: \<^verbatim>\<open>keysRow\<close>, and the names of the fields for
  which \<^verbatim>\<open>formats\<close> declares a number format, when \<^verbatim>\<open>formats\<close> is given.  The methods on a
  state take \<^verbatim>\<open>dataRowFirst\<close>, \<^verbatim>\<open>dataColumnFirst\<close> and \<^verbatim>\<open>dataColumnsNum\<close> from a \<open>db\<close> and the
  schema from the store.\<close>

record config =
  keysRow :: int
  formats :: "string list option"

text \<open>The range of the keys row that \<^verbatim>\<open>_getKeysFromSheet\<close> asks for, and the method on a
  sheet.\<close>

definition keys_range :: "jsprims \<Rightarrow> config \<Rightarrow> db \<Rightarrow> error + string" where
  "keys_range P cf d =
     (case letter (dataColumnFirst d) of Inl e \<Rightarrow> Inl e
      | Inr a \<Rightarrow>
          (case (case dataColumnsNum d of None \<Rightarrow> Inr []
                 | Some n \<Rightarrow> if n \<noteq> 0 then letter (dataColumnFirst d + n - 1) else Inr []) of
             Inl e \<Rightarrow> Inl e
           | Inr b \<Rightarrow>
               Inr (a @ numberToString P (of_int (keysRow cf)) @ '':'' @ b
                    @ numberToString P (of_int (keysRow cf)))))"

definition getKeysFromSheet_on :: "jsprims \<Rightarrow> config \<Rightarrow> db \<Rightarrow> sheet \<Rightarrow> error + rawKeys" where
  "getKeysFromSheet_on P cf d sh =
     (case keys_range P cf d of Inl e \<Rightarrow> Inl e
      | Inr a1 \<Rightarrow>
          (case getRange_values sh a1 of Inl e \<Rightarrow> Inl e
           | Inr [] \<Rightarrow> Inl (TypeError ''Cannot read properties of undefined'')
           | Inr (header # rest) \<Rightarrow> getKeysFromSheet P header))"

text \<open>The getter \<^verbatim>\<open>keys\<close>, \<^verbatim>\<open>resetKeys\<close> and \<^verbatim>\<open>resetCache\<close>.\<close>

definition get_keys ::
  "jsprims \<Rightarrow> config \<Rightarrow> db \<Rightarrow> sheet \<Rightarrow> store \<Rightarrow> (error + rawKeys) \<times> store" where
  "get_keys P cf d sh s =
     (case keys_property s of Some ks \<Rightarrow> (Inr ks, s)
      | None \<Rightarrow>
          (case keys_cache s of Some ks \<Rightarrow> (Inr ks, s)
           | None \<Rightarrow>
               (case getKeysFromSheet_on P cf d sh of Inl e \<Rightarrow> (Inl e, s)
                | Inr ks \<Rightarrow> (Inr ks, s\<lparr>keys_cache := Some ks\<rparr>))))"

definition resetKeys :: "store \<Rightarrow> (error + unit) \<times> store" where
  "resetKeys s =
     (case keys_property s of Some ks \<Rightarrow> (Inl (Error ''keys are imutable''), s)
      | None \<Rightarrow> (Inr (), s\<lparr>keys_cache := None\<rparr>))"

definition resetCache :: "store \<Rightarrow> store" where
  "resetCache s = s\<lparr>values_cache := None\<rparr>"

text \<open>The data methods are embedded for the schemas whose offsets are array indexes.  With
  another offset (a mapping may give one, see C9) a data method is followed up to its
  reading of the schema and no further.\<close>

definition is_index :: "jsval \<Rightarrow> bool" where
  "is_index v = (case v of JNum q \<Rightarrow> 0 \<le> q \<and> q = of_int \<lfloor>q\<rfloor> | _ \<Rightarrow> False)"

definition index_of :: "jsval \<Rightarrow> nat" where
  "index_of v = (case v of JNum q \<Rightarrow> nat \<lfloor>q\<rfloor> | _ \<Rightarrow> 0)"

definition index_keys :: "rawKeys \<Rightarrow> keys option" where
  "index_keys raw =
     (if list_all (\<lambda>(key, v). is_index v) raw
      then Some (map (\<lambda>(key, v). (key, index_of v)) raw) else None)"

type_synonym state = "sheet \<times> store"

text \<open>A method that starts by reading \<^verbatim>\<open>this.keys\<close>, and one that goes on to read
  \<^verbatim>\<open>this.values\<close>: the region is asked of the sheet when the cache is empty.\<close>

definition with_keys ::
  "jsprims \<Rightarrow> config \<Rightarrow> db \<Rightarrow> state \<Rightarrow> (db \<Rightarrow> state \<Rightarrow> (error + 'a) \<times> state)
     \<Rightarrow> (error + 'a) \<times> state" where
  "with_keys P cf d st f =
     (case get_keys P cf d (fst st) (snd st) of
        (Inl e, s) \<Rightarrow> (Inl e, (fst st, s))
      | (Inr raw, s) \<Rightarrow>
          (case index_keys raw of
             None \<Rightarrow> (Inl (Error ''offset is no array index''), (fst st, s))
           | Some ks \<Rightarrow> f (d\<lparr>keys := ks\<rparr>) (fst st, s)))"

definition with_values ::
  "jsprims \<Rightarrow> db \<Rightarrow> state \<Rightarrow> (jsval list list \<Rightarrow> state \<Rightarrow> (error + 'a) \<times> state)
     \<Rightarrow> (error + 'a) \<times> state" where
  "with_values P d st f =
     (case values_cache (snd st) of Some v \<Rightarrow> f v st
      | None \<Rightarrow>
          (case values_range P d of Inl e \<Rightarrow> (Inl e, st)
           | Inr a1 \<Rightarrow>
               (case getRange_values (fst st) a1 of Inl e \<Rightarrow> (Inl e, st)
                | Inr v \<Rightarrow> f v (fst st, (snd st)\<lparr>values_cache := Some v\<rparr>))))"

text \<open>\<^verbatim>\<open>setFormats\<close>, as far as the store goes: without \<^verbatim>\<open>formats\<close> it returns at once; with
  \<^verbatim>\<open>formats\<close> it reads \<^verbatim>\<open>keysLetters\<close>, hence \<^verbatim>\<open>keys\<close>, and throws when a name of \<^verbatim>\<open>formats\<close>
  is no key.  The number formats are no part of the sheet here.\<close>

definition setFormats_on :: "jsprims \<Rightarrow> config \<Rightarrow> db \<Rightarrow> state \<Rightarrow> (error + unit) \<times> state" where
  "setFormats_on P cf d st =
     (case formats cf of None \<Rightarrow> (Inr (), st)
      | Some names \<Rightarrow>
          (case get_keys P cf d (fst st) (snd st) of
             (Inl e, s) \<Rightarrow> (Inl e, (fst st, s))
           | (Inr raw, s) \<Rightarrow>
               (if list_all (\<lambda>key. in_object key raw) names then Inr ()
                else Inl (Error ''No key in keys''), (fst st, s))))"

text \<open>The end of a mutating method that returns \<open>res\<close>: its calls have reached the sheet,
  \<^verbatim>\<open>resetCache\<close> and \<^verbatim>\<open>setFormats\<close> follow, in one order or the other (they touch different
  caches).  When a method throws before its end, the calls that it has issued by then are
  not followed.\<close>

definition issued :: "state \<Rightarrow> call list \<Rightarrow> state" where
  "issued st calls = (foldl apply_call (fst st) calls, resetCache (snd st))"

definition finish ::
  "jsprims \<Rightarrow> config \<Rightarrow> db \<Rightarrow> state \<Rightarrow> call list \<Rightarrow> 'a \<Rightarrow> (error + 'a) \<times> state" where
  "finish P cf d st calls res =
     (case fst (setFormats_on P cf d (issued st calls)) of
        Inl e \<Rightarrow> (Inl e, snd (setFormats_on P cf d (issued st calls)))
      | Inr u \<Rightarrow> (Inr res, snd (setFormats_on P cf d (issued st calls))))"

text \<open>The getter \<^verbatim>\<open>keys\<close> on a state.  The getters \<^verbatim>\<open>keysColumns\<close>, \<^verbatim>\<open>keysLetters\<close>,
  \<^verbatim>\<open>keysArray\<close> and \<^verbatim>\<open>lastDataColumn\<close> and the method \<^verbatim>\<open>generateTypeDef\<close> read it and
  do nothing else to the store.\<close>

definition keys_on :: "jsprims \<Rightarrow> config \<Rightarrow> db \<Rightarrow> state \<Rightarrow> (error + rawKeys) \<times> state" where
  "keys_on P cf d st =
     (fst (get_keys P cf d (fst st) (snd st)), (fst st, snd (get_keys P cf d (fst st) (snd st))))"

text \<open>The getters \<^verbatim>\<open>values\<close> and \<^verbatim>\<open>dbItems\<close> called on their own: the text of the range
  starts with \<^verbatim>\<open>letter(dataColumnFirst)\<close>, and \<^verbatim>\<open>lastDataColumn\<close>, hence \<^verbatim>\<open>keys\<close>, is read
  only when \<^verbatim>\<open>dataColumnsNum\<close> is not given.\<close>

definition values_on ::
  "jsprims \<Rightarrow> config \<Rightarrow> db \<Rightarrow> state \<Rightarrow> (error + jsval list list) \<times> state" where
  "values_on P cf d st =
     (case values_cache (snd st) of Some v \<Rightarrow> (Inr v, st)
      | None \<Rightarrow>
          (case letter (dataColumnFirst d) of Inl e \<Rightarrow> (Inl e, st)
           | Inr a \<Rightarrow>
               if (case dataColumnsNum d of None \<Rightarrow> False | Some n \<Rightarrow> n \<noteq> 0)
               then with_values P d st (\<lambda>v st'. (Inr v, st'))
               else with_keys P cf d st (\<lambda>d' st'.
                      with_values P d' st' (\<lambda>v st''. (Inr v, st'')))))"

definition dbItems_on ::
  "jsprims \<Rightarrow> config \<Rightarrow> db \<Rightarrow> state \<Rightarrow> (error + dbItem list) \<times> state" where
  "dbItems_on P cf d st =
     (case fst (values_on P cf d st) of
        Inl e \<Rightarrow> (Inl e, snd (values_on P cf d st))
      | Inr v \<Rightarrow>
          with_keys P cf d (snd (values_on P cf d st)) (\<lambda>d' st'. (Inr (dbItems d' v), st')))"

definition getDataItems_on ::
  "jsprims \<Rightarrow> config \<Rightarrow> db \<Rightarrow> (dbItem \<Rightarrow> bool) option \<Rightarrow> (dbItem \<Rightarrow> dbItem) option
     \<Rightarrow> keyarg option \<Rightarrow> state \<Rightarrow> (error + dbItem list) \<times> state" where
  "getDataItems_on P cf d fcb icb ig st =
     with_keys P cf d st (\<lambda>d' st'.
       with_values P d' st' (\<lambda>v st''. (Inr (getDataItemsArray d' v fcb icb ig), st'')))"

definition getDataItemsObject_on ::
  "jsprims \<Rightarrow> config \<Rightarrow> db \<Rightarrow> keyarg \<Rightarrow> (dbItem \<Rightarrow> bool) option
     \<Rightarrow> (dbItem \<Rightarrow> jsval \<Rightarrow> dbItem) option \<Rightarrow> (jsval \<Rightarrow> jsval) option \<Rightarrow> keyarg option
     \<Rightarrow> state \<Rightarrow> (error + (string \<times> dbItem) list) \<times> state" where
  "getDataItemsObject_on P cf d useKeys fcb icb kcb ig st =
     with_keys P cf d st (\<lambda>d' st'.
       with_values P d' st' (\<lambda>v st''. (getDataItemsObject P d' v useKeys fcb icb kcb ig, st'')))"

definition getDataItemByRow_on ::
  "jsprims \<Rightarrow> config \<Rightarrow> db \<Rightarrow> int \<Rightarrow> keyarg option \<Rightarrow> (dbItem \<Rightarrow> dbItem) option
     \<Rightarrow> state \<Rightarrow> (error + dbItem) \<times> state" where
  "getDataItemByRow_on P cf d r ig icb st =
     with_keys P cf d st (\<lambda>d' st'.
       (getDataItemByRow_at d' (getSheetValues (fst st')) r ig icb, st'))"

definition insertDataItems_on ::
  "jsprims \<Rightarrow> config \<Rightarrow> db \<Rightarrow> dataItem list \<Rightarrow> jsval \<Rightarrow> bool
     \<Rightarrow> state \<Rightarrow> (error + unit) \<times> state" where
  "insertDataItems_on P cf d dataItems defaultValue growUp st =
     with_keys P cf d st (\<lambda>d' st'.
       (case insertDataItems d' (sheet_lastRow (fst st')) dataItems defaultValue growUp of
          Inl e \<Rightarrow> (Inl e, st')
        | Inr calls \<Rightarrow> if calls = [] then (Inr (), st') else finish P cf d st' calls ()))"

definition updateDataItems_on ::
  "jsprims \<Rightarrow> config \<Rightarrow> db \<Rightarrow> dbItem list \<Rightarrow> state \<Rightarrow> (error + unit) \<times> state" where
  "updateDataItems_on P cf d items st =
     with_keys P cf d st (\<lambda>d' st'.
       with_values P d' st' (\<lambda>v st''.
         (case updateDataItems d' v items of Inl e \<Rightarrow> (Inl e, st'')
          | Inr calls \<Rightarrow> if items = [] then (Inr (), st'') else finish P cf d st'' calls ())))"

definition updateDataItemByRow_on ::
  "jsprims \<Rightarrow> config \<Rightarrow> db \<Rightarrow> int \<Rightarrow> dataItem \<Rightarrow> keyarg option \<Rightarrow> keyarg option
     \<Rightarrow> state \<Rightarrow> (error + bool) \<times> state" where
  "updateDataItemByRow_on P cf d r dataItem controlKeys ig st =
     with_keys P cf d st (\<lambda>d' st'.
       (case updateDataItemByRow d' (getSheetValues (fst st')) r dataItem controlKeys ig of
          Inl e \<Rightarrow> (Inl e, st')
        | Inr (ok, calls) \<Rightarrow> if ok then finish P cf d st' calls True else (Inr False, st')))"

definition mergeDataItems_on ::
  "jsprims \<Rightarrow> config \<Rightarrow> db \<Rightarrow> dataItems \<Rightarrow> keyarg \<Rightarrow> mergeOptions
     \<Rightarrow> state \<Rightarrow> (error + counts) \<times> state" where
  "mergeDataItems_on P cf d dataItems useKeys opts st =
     with_keys P cf d st (\<lambda>d' st'.
       with_values P d' st' (\<lambda>v st''.
         (case mergeDataItems P d' v (\<lambda>calls. sheet_lastRow (foldl apply_call (fst st'') calls))
                 dataItems useKeys opts of
            Inl e \<Rightarrow> (Inl e, st'')
          | Inr (n, calls) \<Rightarrow> finish P cf d st'' calls n)))"

text \<open>\<^verbatim>\<open>replaceData\<close> fits the sheet to the number of records before it reads the schema.\<close>

definition replaceData_on ::
  "jsprims \<Rightarrow> config \<Rightarrow> db \<Rightarrow> dataItem list \<Rightarrow> jsval \<Rightarrow> state \<Rightarrow> (error + unit) \<times> state" where
  "replaceData_on P cf d dataItems defaultValue st =
     with_keys P cf d
       (if fit d (sheet_maxRows (fst st)) (int (length dataItems)) = [] then st
        else issued st (fit d (sheet_maxRows (fst st)) (int (length dataItems))))
       (\<lambda>d' st'.
          (case replaceData d' dataItems defaultValue of Inl e \<Rightarrow> (Inl e, st')
           | Inr calls \<Rightarrow> finish P cf d st' calls ()))"

definition deleteDataItems_on ::
  "jsprims \<Rightarrow> config \<Rightarrow> db \<Rightarrow> dbItem list \<Rightarrow> state \<Rightarrow> (error + unit) \<times> state" where
  "deleteDataItems_on P cf d items st =
     (case deleteDataItems items of Inl e \<Rightarrow> (Inl e, st)
      | Inr calls \<Rightarrow> if items = [] then (Inr (), st) else finish P cf d st calls ())"

text \<open>The three methods whose call of the sheet is none of the spec's medium
  (\<^verbatim>\<open>insertCheckboxes\<close>, \<^verbatim>\<open>clearContent\<close>, \<^verbatim>\<open>sort\<close> of a range): what the sheet does there,
  an error or the sheet that it leaves, is the argument \<open>out\<close>.  The method ends with
  \<^verbatim>\<open>resetCache\<close>.\<close>

definition medium_call :: "error + sheet \<Rightarrow> state \<Rightarrow> (error + unit) \<times> state" where
  "medium_call out st =
     (case out of Inl e \<Rightarrow> (Inl e, st) | Inr sh \<Rightarrow> (Inr (), (sh, resetCache (snd st))))"

definition insertCheckboxes_on ::
  "jsprims \<Rightarrow> config \<Rightarrow> db \<Rightarrow> keyarg \<Rightarrow> error + sheet \<Rightarrow> state \<Rightarrow> (error + unit) \<times> state" where
  "insertCheckboxes_on P cf d ks out st =
     with_keys P cf d st (\<lambda>d' st'.
       (case checkKeys (keys d') (Arr (flat ks)) of Inl e \<Rightarrow> (Inl e, st')
        | Inr u \<Rightarrow> medium_call out st'))"

definition clearData_on ::
  "jsprims \<Rightarrow> config \<Rightarrow> db \<Rightarrow> error + sheet \<Rightarrow> state \<Rightarrow> (error + unit) \<times> state" where
  "clearData_on P cf d out st =
     (case letter (dataColumnFirst d) of Inl e \<Rightarrow> (Inl e, st)
      | Inr a \<Rightarrow>
          if (case dataColumnsNum d of None \<Rightarrow> False | Some n \<Rightarrow> n \<noteq> 0)
          then (case letter (dataColumnFirst d
                             + (case dataColumnsNum d of None \<Rightarrow> 0 | Some n \<Rightarrow> n) - 1) of
                  Inl e \<Rightarrow> (Inl e, st)
                | Inr b \<Rightarrow> medium_call out st)
          else with_keys P cf d st (\<lambda>d' st'.
                 (case letter (lastDataColumn (keys d')) of Inl e \<Rightarrow> (Inl e, st')
                  | Inr b \<Rightarrow> medium_call out st')))"

text \<open>\<^verbatim>\<open>sort\<close>: each key of \<^verbatim>\<open>sortOptions\<close> is checked against the schema and its direction
  against \<^verbatim>\<open>asc\<close> and \<^verbatim>\<open>desc\<close>; the width of the range is
  \<^verbatim>\<open>dataColumnsNum ?? lastDataColumn - dataColumnFirst + 1\<close>.\<close>

fun sort_check :: "keys \<Rightarrow> (string \<times> string) list \<Rightarrow> error + unit" where
  "sort_check ks [] = Inr ()"
| "sort_check ks ((key, direction) # rest) =
     (case checkKeys ks (Str key) of Inl e \<Rightarrow> Inl e
      | Inr u \<Rightarrow>
          if direction \<noteq> ''asc'' \<and> direction \<noteq> ''desc''
          then Inl (Error ''DB: Invalid sort direction'')
          else sort_check ks rest)"

definition sort_on ::
  "jsprims \<Rightarrow> config \<Rightarrow> db \<Rightarrow> (string \<times> string) list \<Rightarrow> error + sheet
     \<Rightarrow> state \<Rightarrow> (error + unit) \<times> state" where
  "sort_on P cf d sortOptions out st =
     (if sortOptions = [] \<and> dataColumnsNum d \<noteq> None then medium_call out st
      else with_keys P cf d st (\<lambda>d' st'.
             (case sort_check (keys d') sortOptions of Inl e \<Rightarrow> (Inl e, st')
              | Inr u \<Rightarrow> medium_call out st')))"

text \<open>What happens to a store during its life: a call of one of its public methods or
  getters, or an edit of the sheet from outside, which may leave any sheet.  \<open>Keys\<close> stands
  for the getter \<^verbatim>\<open>keys\<close> and for those that read it and nothing else of the store
  (\<^verbatim>\<open>keysColumns\<close>, \<^verbatim>\<open>keysLetters\<close>, \<^verbatim>\<open>keysArray\<close>, \<^verbatim>\<open>lastDataColumn\<close>, \<^verbatim>\<open>generateTypeDef\<close>),
  \<open>GetDataItems\<close> also for \<^verbatim>\<open>getDataItemsArray\<close>, \<open>InsertDataItems\<close> also for \<^verbatim>\<open>insert\<close> and
  \<^verbatim>\<open>insertDataItem\<close>.  The method \<^verbatim>\<open>letter\<close> and the getters \<^verbatim>\<open>sheet\<close> and \<^verbatim>\<open>ss\<close> do not
  touch the store.\<close>

datatype op =
    Keys
  | ResetKeys
  | ResetCache
  | SetFormats
  | Values
  | DbItems
  | Edit sheet
  | InsertCheckboxes keyarg "error + sheet"
  | ClearData "error + sheet"
  | Sort "(string \<times> string) list" "error + sheet"
  | GetDataItems "(dbItem \<Rightarrow> bool) option" "(dbItem \<Rightarrow> dbItem) option" "keyarg option"
  | GetDataItemsObject keyarg "(dbItem \<Rightarrow> bool) option" "(dbItem \<Rightarrow> jsval \<Rightarrow> dbItem) option"
      "(jsval \<Rightarrow> jsval) option" "keyarg option"
  | GetDataItemByRow int "keyarg option" "(dbItem \<Rightarrow> dbItem) option"
  | InsertDataItems "dataItem list" jsval bool
  | UpdateDataItems "dbItem list"
  | UpdateDataItemByRow int dataItem "keyarg option" "keyarg option"
  | MergeDataItems dataItems keyarg mergeOptions
  | ReplaceData "dataItem list" jsval
  | DeleteDataItems "dbItem list"

fun step :: "jsprims \<Rightarrow> config \<Rightarrow> db \<Rightarrow> state \<Rightarrow> op \<Rightarrow> state" where
  "step P cf d st Keys = snd (keys_on P cf d st)"
| "step P cf d st ResetKeys = (fst st, snd (resetKeys (snd st)))"
| "step P cf d st ResetCache = (fst st, resetCache (snd st))"
| "step P cf d st SetFormats = snd (setFormats_on P cf d st)"
| "step P cf d st Values = snd (values_on P cf d st)"
| "step P cf d st DbItems = snd (dbItems_on P cf d st)"
| "step P cf d st (Edit sh) = (sh, snd st)"
| "step P cf d st (InsertCheckboxes ks out) = snd (insertCheckboxes_on P cf d ks out st)"
| "step P cf d st (ClearData out) = snd (clearData_on P cf d out st)"
| "step P cf d st (Sort sortOptions out) = snd (sort_on P cf d sortOptions out st)"
| "step P cf d st (GetDataItems fcb icb ig) = snd (getDataItems_on P cf d fcb icb ig st)"
| "step P cf d st (GetDataItemsObject useKeys fcb icb kcb ig) =
     snd (getDataItemsObject_on P cf d useKeys fcb icb kcb ig st)"
| "step P cf d st (GetDataItemByRow r ig icb) = snd (getDataItemByRow_on P cf d r ig icb st)"
| "step P cf d st (InsertDataItems dataItems defaultValue growUp) =
     snd (insertDataItems_on P cf d dataItems defaultValue growUp st)"
| "step P cf d st (UpdateDataItems items) = snd (updateDataItems_on P cf d items st)"
| "step P cf d st (UpdateDataItemByRow r dataItem controlKeys ig) =
     snd (updateDataItemByRow_on P cf d r dataItem controlKeys ig st)"
| "step P cf d st (MergeDataItems dataItems useKeys opts) =
     snd (mergeDataItems_on P cf d dataItems useKeys opts st)"
| "step P cf d st (ReplaceData dataItems defaultValue) =
     snd (replaceData_on P cf d dataItems defaultValue st)"
| "step P cf d st (DeleteDataItems items) = snd (deleteDataItems_on P cf d items st)"

text \<open>The schema that a store holds, when it holds one, and two stores that hold the same
  in the same way.\<close>

definition held_schema :: "store \<Rightarrow> rawKeys option" where
  "held_schema s = (case keys_property s of Some ks \<Rightarrow> Some ks | None \<Rightarrow> keys_cache s)"

definition same_schema :: "store \<Rightarrow> store \<Rightarrow> bool" where
  "same_schema s s' = (keys_property s' = keys_property s \<and> keys_cache s' = keys_cache s)"

text \<open>The schema that the store answers after a sequence of operations.\<close>

definition keys_after ::
  "jsprims \<Rightarrow> config \<Rightarrow> db \<Rightarrow> op list \<Rightarrow> state \<Rightarrow> error + rawKeys" where
  "keys_after P cf d ops st = fst (keys_on P cf d (foldl (step P cf d) st ops))"

subsection \<open>A store and conversions for the examples\<close>

text \<open>Decimal numerals of integers, in both directions.  The examples use no other
  number as a hash or against a string; the general statements hold for every \<open>jsprims\<close>.\<close>

function show_nat :: "nat \<Rightarrow> string" where
  "show_nat n =
     (if n < 10 then [char_of (48 + n)]
      else show_nat (n div 10) @ [char_of (48 + n mod 10)])"
  by pat_completeness auto
termination
  by (relation "measure id") auto

definition show_number :: "rat \<Rightarrow> string" where
  "show_number q = (if q < 0 then ''-'' else []) @ show_nat (nat \<lfloor>\<bar>q\<bar>\<rfloor>)"

definition read_number :: "string \<Rightarrow> jsval" where
  "read_number s =
     (if list_all (\<lambda>c. 48 \<le> (of_char c :: nat) \<and> (of_char c :: nat) \<le> 57) s
      then JNum (of_nat (foldl (\<lambda>n c. 10 * n + (of_char c - 48)) (0::nat) s))
      else JNaN)"

definition decimal :: jsprims where
  "decimal = \<lparr>numberToString = show_number, stringToNumber = read_number,
              objectToString = (\<lambda>n. ''[object '' @ n @ '']'')\<rparr>"

text \<open>The store of the specification's scenarios: fields \<^verbatim>\<open>sku\<close> and \<^verbatim>\<open>qty\<close> in columns
  A and B, data from row 2.\<close>

definition sku_qty :: db where
  "sku_qty = \<lparr>keys = [(''sku'', 0), (''qty'', 1)], dataRowFirst = 2,
              dataColumnFirst = 1, dataColumnsNum = None\<rparr>"

text \<open>The settings of that store without a schema: the methods on a state take the schema
  from the store and not from the field \<open>keys\<close> of the settings.\<close>

definition settings :: db where
  "settings = \<lparr>keys = [], dataRowFirst = 2, dataColumnFirst = 1, dataColumnsNum = None\<rparr>"

definition keys_row_1 :: config where
  "keys_row_1 = \<lparr>keysRow = 1, formats = None\<rparr>"

text \<open>The same fields from column B on, and a schema with a field called \<^verbatim>\<open>row\<close>.\<close>

definition sku_qty_from_B :: db where
  "sku_qty_from_B = \<lparr>keys = [(''sku'', 0), (''qty'', 1)], dataRowFirst = 2,
                     dataColumnFirst = 2, dataColumnsNum = None\<rparr>"


definition default_options :: mergeOptions where
  "default_options = \<lparr>isUpdateCB = None, updateCB = None, isDeleteCB = None,
                       filterCB = None, keyCB = None, ignoreKeys = None\<rparr>"

definition delete_all_options :: mergeOptions where
  "delete_all_options = default_options\<lparr>isDeleteCB := Some (\<lambda>c. True)\<rparr>"

section \<open>Properties\<close>

subsection \<open>Grouping by hash key\<close>

text \<open>The incoming array: two records with the same hash key make the grouping throw.\<close>

lemma in_DBItemsObject_js_set:
  "in_DBItemsObject h (js_set obj k v) \<longleftrightarrow> h = k \<or> in_DBItemsObject h obj"
  by (auto simp: in_DBItemsObject_def js_in_def js_set_def update_conv')

lemma parse_loop_collision:
  "\<not> distinct (map (hashKey P hf kcb) xs)
     \<or> (\<exists>x \<in> set xs. in_DBItemsObject (hashKey P hf kcb x) obj) \<Longrightarrow>
   parseDataItemsArrayToObject_loop P hf kcb xs obj
   = Inl (Error ''Hash already exists in dataItemsObject'')"
proof (induction xs arbitrary: obj)
  case Nil
  then show ?case by simp
next
  case (Cons x xs)
  show ?case
  proof (cases "in_DBItemsObject (hashKey P hf kcb x) obj")
    case True
    then show ?thesis by (simp add: Let_def)
  next
    case False
    have "\<not> distinct (map (hashKey P hf kcb) xs)
        \<or> (\<exists>y \<in> set xs. in_DBItemsObject (hashKey P hf kcb y) (js_set obj (hashKey P hf kcb x) x))"
      using Cons.prems False by (auto simp: in_DBItemsObject_js_set)
    from Cons.IH[OF this] False show ?thesis by (simp add: Let_def)
  qed
qed

lemma parseDataItemsArrayToObject_collision:
  assumes "getKeysHashFunction P ks useKeys = Inr hf"
    and "\<not> distinct (map (hashKey P hf kcb) xs)"
  shows "parseDataItemsArrayToObject P ks xs useKeys kcb
         = Inl (Error ''Hash already exists in dataItemsObject'')"
  using assms by (simp add: parseDataItemsArrayToObject_def parse_loop_collision)

text \<open>
  C1.  The claim: grouping fails with an identity-collision error whenever two records
  of the collection have the same hash key, for the records read from the grid as for
  the incoming array.  \<^verbatim>\<open>_parseDataItemsArrayToObject\<close> does so; \<^verbatim>\<open>getDataItemsObject\<close>
  does not: rows 2 and 3 both hash to \<open>A\<close>, the call returns normally, and the record of
  row 2 is gone from the result.
\<close>

theorem C1_getDataItemsObject_overwrites:
  "getDataItemsObject decimal sku_qty
     [[JStr ''A'', JNum 1], [JStr ''A'', JNum 2]] (Str ''sku'') None None None None
   = Inr [(''A'', \<lparr>props = [(''sku'', JStr ''A''), (''qty'', JNum 2)], row = 3\<rparr>)]
   \<and> parseDataItemsArrayToObject decimal (keys sku_qty)
       [[(''sku'', JStr ''A''), (''qty'', JNum 1)], [(''sku'', JStr ''A''), (''qty'', JNum 2)]]
       (Str ''sku'') None
     = Inl (Error ''Hash already exists in dataItemsObject'')"
  by code_simp

subsection \<open>Empty cells\<close>

text \<open>
  C7.  The claim: on every read path an empty cell \<^verbatim>\<open>""\<close> becomes the absent marker of
  the record.  The single-row read (\<^verbatim>\<open>getDataItemByRow\<close>, through
  \<^verbatim>\<open>_parseRowValuesToItem\<close>) converts it to \<^verbatim>\<open>null\<close>; the cached read behind
  \<^verbatim>\<open>getDataItems\<close> copies the cell as it is, so the same row gives \<^verbatim>\<open>qty: ""\<close> there.
\<close>

theorem C7_cached_read_keeps_empty_string:
  "getDataItemsArray sku_qty [[JStr ''A'', JStr '''']] None None None
   = [\<lparr>props = [(''sku'', JStr ''A''), (''qty'', JStr '''')], row = 2\<rparr>]
   \<and> getDataItemByRow sku_qty [JStr ''A'', JStr ''''] 2 None None
     = \<lparr>props = [(''sku'', JStr ''A''), (''qty'', JNull)], row = 2\<rparr>"
  by code_simp

subsection \<open>Column letters\<close>

text \<open>
  C10.  The claim: \<^verbatim>\<open>letter\<close> returns the spreadsheet label of every column number from 1
  on, so that the cached read addresses the last data column of every schema.  At a
  multiple of 26 the loop takes the remainder 0 for a digit: column 52 is \<open>AZ\<close>, and
  \<^verbatim>\<open>letter(52)\<close> is \<open>B@\<close>; a schema whose last field is in column 52 reads the range
  \<open>A2:B@\<close>.
\<close>

theorem C10_letter_52:
  "letter 52 = Inr ''B@'' \<and> column_label 52 = ''AZ''
   \<and> values_range decimal \<lparr>keys = [(''a'', 0), (''z'', 51)], dataRowFirst = 2,
        dataColumnFirst = 1, dataColumnsNum = None\<rparr> = Inr ''A2:B@''"
  by code_simp

subsection \<open>Schema resolution from explicit keys\<close>

lemma validate_array_dup:
  "\<not> distinct ks \<or> (\<exists>k \<in> set ks. in_object k obj) \<Longrightarrow>
   validate_array ks i obj = Inl (Error ''keys array must contain only unique values'')"
proof (induction ks arbitrary: i obj)
  case Nil
  then show ?case by simp
next
  case (Cons k ks)
  show ?case
  proof (cases "in_object k obj")
    case True
    then show ?thesis by simp
  next
    case False
    have "\<not> distinct ks \<or> (\<exists>k' \<in> set ks. in_object k' (js_set obj k (JNum (of_nat i))))"
      using Cons.prems False
      by (auto simp: in_object_def js_in_def js_set_def update_conv')
    from Cons.IH[OF this] False show ?thesis by simp
  qed
qed

lemma validate_object_ok:
  "(validate_object m = Inr ()) = (\<forall>v \<in> snd ` set m. is_number v \<and> \<not> less_zero v)"
  by (induction m rule: validate_object.induct)
     (auto simp: is_number_def less_zero_def split: jsval.splits)

text \<open>What the validation does refuse: a list of names with a duplicate fails with the
  error of the uniqueness test, and a mapping fails if and only if it is empty or one of
  its offsets is not of type number or is less than 0.\<close>

lemma validateAndSetKeys_fails_iff:
  "(\<not> distinct ks \<longrightarrow>
      validateAndSetKeys (KeysArray ks)
      = Inl (Error ''keys array must contain only unique values''))
   \<and> ((\<exists>e. validateAndSetKeys (KeysObject m) = Inl e)
        \<longleftrightarrow> (m = [] \<or> (\<exists>v \<in> snd ` set m. \<not> is_number v \<or> less_zero v)))"
proof (intro conjI impI)
  assume "\<not> distinct ks"
  then have "ks \<noteq> []" by auto
  with \<open>\<not> distinct ks\<close> show "validateAndSetKeys (KeysArray ks)
      = Inl (Error ''keys array must contain only unique values'')"
    by (simp add: validate_array_dup)
next
  show "(\<exists>e. validateAndSetKeys (KeysObject m) = Inl e)
        \<longleftrightarrow> (m = [] \<or> (\<exists>v \<in> snd ` set m. \<not> is_number v \<or> less_zero v))"
  proof (cases "validate_object m")
    case (Inl e)
    then have "validate_object m \<noteq> Inr ()" by simp
    then have "\<exists>v \<in> snd ` set m. \<not> is_number v \<or> less_zero v"
      unfolding validate_object_ok by blast
    with Inl show ?thesis by simp
  next
    case (Inr u)
    then have "validate_object m = Inr ()" by simp
    then have "\<not> (\<exists>v \<in> snd ` set m. \<not> is_number v \<or> less_zero v)"
      unfolding validate_object_ok by blast
    with Inr show ?thesis by simp
  qed
qed

text \<open>
  C9.  The claim: a mapping from names to offsets fails unless every offset is a
  non-negative integer.  The object branch of \<^verbatim>\<open>_validateAndSetKeys\<close> tests \<^verbatim>\<open>typeof\<close> and
  \<^verbatim>\<open>< 0\<close> and nothing else: the mapping \<^verbatim>\<open>{sku: 0, qty: 1.5}\<close> is accepted as the schema,
  although 1.5 is no integer and no cell of a row has that index.
\<close>

theorem C9_fractional_offset_accepted:
  "validateAndSetKeys (KeysObject [(''sku'', JNum 0), (''qty'', JNum (3 / 2))])
   = Inr [(''sku'', JNum 0), (''qty'', JNum (3 / 2))] \<and> (3 / 2 :: rat) \<notin> \<int>"
proof -
  have "(3 / 2 :: rat) \<notin> \<int>"
  proof
    assume "(3 / 2 :: rat) \<in> \<int>"
    then obtain z :: int where "(3 / 2 :: rat) = of_int z"
      by (auto elim: Ints_cases)
    then have "(of_int 3 :: rat) = of_int (2 * z)" by simp
    then have "3 = 2 * z" by (simp only: of_int_eq_iff)
    then show False by presburger
  qed
  then show ?thesis by simp
qed

subsection \<open>The schema during the life of a store\<close>

text \<open>A store that holds a schema answers it, and no method other than \<^verbatim>\<open>resetKeys\<close>
  changes how it is held; \<^verbatim>\<open>resetKeys\<close> changes nothing when the schema is a property.\<close>

lemma get_keys_held:
  "held_schema s = Some ks \<Longrightarrow> get_keys P cf d sh s = (Inr ks, s)"
  by (auto simp: held_schema_def get_keys_def split: option.splits)

lemma get_keys_unheld:
  "held_schema s = None \<Longrightarrow>
   fst (get_keys P cf d sh s) = getKeysFromSheet_on P cf d sh"
  by (auto simp: held_schema_def get_keys_def split: option.splits sum.splits)

lemma with_keys_held:
  "held_schema (snd st) = Some ks \<Longrightarrow>
   with_keys P cf d st f =
     (case index_keys ks of None \<Rightarrow> (Inl (Error ''offset is no array index''), st)
      | Some ks' \<Rightarrow> f (d\<lparr>keys := ks'\<rparr>) st)"
  by (cases st) (simp add: with_keys_def get_keys_held split: option.splits)

lemma same_schema_refl: "same_schema s s"
  by (simp add: same_schema_def)

lemma same_schema_values: "same_schema s (s'\<lparr>values_cache := v\<rparr>) = same_schema s s'"
  by (simp add: same_schema_def)

lemma same_schema_issued: "same_schema s (snd (issued st calls)) = same_schema s (snd st)"
  by (simp add: issued_def resetCache_def same_schema_def)

lemma held_same: "same_schema s s' \<Longrightarrow> held_schema s' = held_schema s"
  by (auto simp: same_schema_def held_schema_def split: option.splits)

lemma setFormats_frame:
  assumes "held_schema s = Some ks" and "same_schema s (snd st)"
  shows "same_schema s (snd (snd (setFormats_on P cf d st)))"
proof -
  have "held_schema (snd st) = Some ks" using assms by (simp add: held_same)
  then show ?thesis using assms(2)
    by (simp add: setFormats_on_def get_keys_held split: option.splits)
qed

lemma finish_frame:
  assumes "held_schema s = Some ks" and "same_schema s (snd st)"
  shows "same_schema s (snd (snd (finish P cf d st calls res)))"
proof -
  have "same_schema s (snd (snd (setFormats_on P cf d (issued st calls))))"
    using assms by (intro setFormats_frame) (simp_all add: same_schema_issued)
  then show ?thesis by (simp add: finish_def split: sum.splits)
qed

lemma with_values_frame:
  assumes "\<And>v st'. same_schema s (snd st') \<Longrightarrow> same_schema s (snd (snd (f v st')))"
    and "same_schema s (snd st)"
  shows "same_schema s (snd (snd (with_values P d st f)))"
  using assms
  by (auto simp: with_values_def same_schema_values split: option.splits sum.splits)

lemma with_keys_frame:
  assumes "held_schema (snd st) = Some ks"
    and "\<And>d'. same_schema (snd st) (snd (snd (f d' st)))"
  shows "same_schema (snd st) (snd (snd (with_keys P cf d st f)))"
  using assms by (simp add: with_keys_held same_schema_refl split: option.splits)

lemma medium_call_frame:
  "same_schema s (snd st) \<Longrightarrow> same_schema s (snd (snd (medium_call out st)))"
  by (simp add: medium_call_def resetCache_def same_schema_def split: sum.splits)

lemma values_on_frame:
  assumes h: "held_schema (snd st) = Some ks"
  shows "same_schema (snd st) (snd (snd (values_on P cf d st)))"
proof -
  have 1: "same_schema (snd st) (snd (snd (with_values P d st (\<lambda>v st'. (Inr v, st')))))"
    by (rule with_values_frame) (simp_all add: same_schema_refl)
  have 2: "same_schema (snd st) (snd (snd (with_keys P cf d st
             (\<lambda>d' st'. with_values P d' st' (\<lambda>v st''. (Inr v, st''))))))"
    by (rule with_keys_frame[OF h], rule with_values_frame) (simp_all add: same_schema_refl)
  from 1 2 show ?thesis
    by (simp add: values_on_def same_schema_refl split: option.splits sum.splits)
qed

lemma step_same_schema:
  assumes h: "held_schema (snd st) = Some ks"
    and x: "x \<noteq> ResetKeys \<or> keys_property (snd st) \<noteq> None"
  shows "same_schema (snd st) (snd (step P cf d st x))"
proof (cases x)
  case Keys
  then show ?thesis using h by (simp add: keys_on_def get_keys_held same_schema_refl)
next
  case ResetKeys
  with x show ?thesis by (auto simp: resetKeys_def same_schema_refl)
next
  case ResetCache
  then show ?thesis by (simp add: resetCache_def same_schema_def)
next
  case SetFormats
  then show ?thesis using setFormats_frame[OF h same_schema_refl] by simp
next
  case Values
  then show ?thesis using values_on_frame[OF h] by simp
next
  case DbItems
  define st1 where "st1 = snd (values_on P cf d st)"
  have s1: "same_schema (snd st) (snd st1)"
    unfolding st1_def by (rule values_on_frame[OF h])
  then have h1: "held_schema (snd st1) = Some ks" using h by (simp add: held_same)
  have "\<And>v. same_schema (snd st1) (snd (snd (with_keys P cf d st1
          (\<lambda>d' st'. (Inr (dbItems d' v), st')))))"
    by (rule with_keys_frame[OF h1]) (simp add: same_schema_refl)
  with s1 show ?thesis unfolding DbItems step.simps dbItems_on_def st1_def[symmetric]
    by (auto simp: same_schema_def split: sum.splits)
next
  case (Edit sh)
  then show ?thesis by (simp add: same_schema_refl)
next
  case (InsertCheckboxes ks' out)
  show ?thesis unfolding InsertCheckboxes step.simps insertCheckboxes_on_def
    by (rule with_keys_frame[OF h])
       (simp add: same_schema_refl medium_call_frame split: sum.splits)
next
  case (ClearData out)
  have "same_schema (snd st) (snd (snd (with_keys P cf d st
          (\<lambda>d' st'. case letter (lastDataColumn (keys d')) of Inl e \<Rightarrow> (Inl e, st')
                     | Inr b \<Rightarrow> medium_call out st'))))"
    by (rule with_keys_frame[OF h])
       (simp add: same_schema_refl medium_call_frame split: sum.splits)
  then show ?thesis unfolding ClearData step.simps clearData_on_def
    by (simp add: same_schema_refl medium_call_frame split: sum.splits)
next
  case (Sort sortOptions out)
  have "same_schema (snd st) (snd (snd (with_keys P cf d st
          (\<lambda>d' st'. case sort_check (keys d') sortOptions of Inl e \<Rightarrow> (Inl e, st')
                     | Inr u \<Rightarrow> medium_call out st'))))"
    by (rule with_keys_frame[OF h])
       (simp add: same_schema_refl medium_call_frame split: sum.splits)
  then show ?thesis unfolding Sort step.simps sort_on_def
    by (simp add: same_schema_refl medium_call_frame)
next
  case (GetDataItems fcb icb ig)
  show ?thesis unfolding GetDataItems step.simps getDataItems_on_def
    by (rule with_keys_frame[OF h], rule with_values_frame) (simp_all add: same_schema_refl)
next
  case (GetDataItemsObject useKeys fcb icb kcb ig)
  show ?thesis unfolding GetDataItemsObject step.simps getDataItemsObject_on_def
    by (rule with_keys_frame[OF h], rule with_values_frame) (simp_all add: same_schema_refl)
next
  case (GetDataItemByRow r ig icb)
  show ?thesis unfolding GetDataItemByRow step.simps getDataItemByRow_on_def
    by (rule with_keys_frame[OF h]) (simp add: same_schema_refl)
next
  case (InsertDataItems dataItems defaultValue growUp)
  show ?thesis unfolding InsertDataItems step.simps insertDataItems_on_def
    by (rule with_keys_frame[OF h])
       (simp add: same_schema_refl finish_frame[OF h] split: sum.splits)
next
  case (UpdateDataItems items)
  show ?thesis unfolding UpdateDataItems step.simps updateDataItems_on_def
    by (rule with_keys_frame[OF h], rule with_values_frame)
       (simp_all add: same_schema_refl finish_frame[OF h] split: sum.splits)
next
  case (UpdateDataItemByRow r dataItem controlKeys ig)
  show ?thesis unfolding UpdateDataItemByRow step.simps updateDataItemByRow_on_def
    by (rule with_keys_frame[OF h])
       (simp add: same_schema_refl finish_frame[OF h] split: sum.splits prod.splits)
next
  case (MergeDataItems dataItems useKeys opts)
  show ?thesis unfolding MergeDataItems step.simps mergeDataItems_on_def
    by (rule with_keys_frame[OF h], rule with_values_frame)
       (simp_all add: same_schema_refl finish_frame[OF h] split: sum.splits prod.splits)
next
  case (ReplaceData dataItems defaultValue)
  define st1 where "st1 = (if fit d (sheet_maxRows (fst st)) (int (length dataItems)) = [] then st
        else issued st (fit d (sheet_maxRows (fst st)) (int (length dataItems))))"
  have s1: "same_schema (snd st) (snd st1)"
    by (simp add: st1_def same_schema_refl same_schema_issued)
  then have h1: "held_schema (snd st1) = Some ks" using h by (simp add: held_same)
  have "same_schema (snd st1) (snd (snd (with_keys P cf d st1
          (\<lambda>d' st'. case replaceData d' dataItems defaultValue of Inl e \<Rightarrow> (Inl e, st')
                     | Inr calls \<Rightarrow> finish P cf d st' calls ()))))"
    by (rule with_keys_frame[OF h1])
       (simp add: same_schema_refl finish_frame[OF h1] split: sum.splits)
  with s1 show ?thesis unfolding ReplaceData step.simps replaceData_on_def st1_def[symmetric]
    by (simp add: same_schema_def)
next
  case (DeleteDataItems items)
  then show ?thesis
    by (simp add: deleteDataItems_on_def same_schema_refl finish_frame[OF h] split: sum.splits)
qed

lemma steps_held:
  assumes "held_schema (snd st) = Some ks"
    and "ResetKeys \<notin> set ops \<or> keys_property (snd st) \<noteq> None"
  shows "same_schema (snd st) (snd (foldl (step P cf d) st ops))"
  using assms
proof (induction ops arbitrary: st)
  case Nil
  then show ?case by (simp add: same_schema_refl)
next
  case (Cons x ops)
  have x: "x \<noteq> ResetKeys \<or> keys_property (snd st) \<noteq> None" using Cons.prems(2) by auto
  note s = step_same_schema[OF Cons.prems(1) x, of P cf d]
  then have h': "held_schema (snd (step P cf d st x)) = Some ks"
    using Cons.prems(1) by (simp add: held_same)
  have k': "ResetKeys \<notin> set ops \<or> keys_property (snd (step P cf d st x)) \<noteq> None"
    using Cons.prems(2) s by (auto simp: same_schema_def)
  from Cons.IH[OF h' k'] s show ?case by (simp add: same_schema_def)
qed

lemma keys_after_held:
  assumes "held_schema (snd st) = Some ks"
    and "ResetKeys \<notin> set ops \<or> keys_property (snd st) \<noteq> None"
  shows "keys_after P cf d ops st = Inr ks"
proof -
  from steps_held[OF assms, of P cf d]
  have "held_schema (snd (foldl (step P cf d) st ops)) = Some ks"
    using assms(1) by (simp add: held_same)
  then show ?thesis by (simp add: keys_after_def keys_on_def get_keys_held)
qed

text \<open>No method defines or removes the property \<^verbatim>\<open>keys\<close>.\<close>

lemma get_keys_property: "keys_property (snd (get_keys P cf d sh s)) = keys_property s"
  by (auto simp: get_keys_def split: option.splits sum.splits)

lemma setFormats_property:
  "keys_property (snd (snd (setFormats_on P cf d st))) = keys_property (snd st)"
  by (auto simp: setFormats_on_def get_keys_def split: option.splits sum.splits prod.splits)

lemma finish_property:
  "keys_property (snd (snd (finish P cf d st calls res))) = keys_property (snd st)"
  by (simp add: finish_def setFormats_property issued_def resetCache_def split: sum.splits)

lemma with_values_property:
  assumes "\<And>v st'. keys_property (snd st') = K \<Longrightarrow> keys_property (snd (snd (f v st'))) = K"
    and "keys_property (snd st) = K"
  shows "keys_property (snd (snd (with_values P d st f))) = K"
  using assms by (auto simp: with_values_def split: option.splits sum.splits)

lemma with_keys_property:
  assumes "\<And>d' st'. keys_property (snd st') = K \<Longrightarrow> keys_property (snd (snd (f d' st'))) = K"
    and "keys_property (snd st) = K"
  shows "keys_property (snd (snd (with_keys P cf d st f))) = K"
  using assms
  by (auto simp: with_keys_def get_keys_def split: option.splits sum.splits prod.splits)

lemma issued_property: "keys_property (snd (issued st calls)) = keys_property (snd st)"
  by (simp add: issued_def resetCache_def)

lemma medium_call_property:
  "keys_property (snd (snd (medium_call out st))) = keys_property (snd st)"
  by (simp add: medium_call_def resetCache_def split: sum.splits)

lemma values_on_property:
  "keys_property (snd (snd (values_on P cf d st))) = keys_property (snd st)"
proof -
  have 1: "keys_property (snd (snd (with_values P d st (\<lambda>v st'. (Inr v, st')))))
           = keys_property (snd st)"
    by (rule with_values_property) simp_all
  have 2: "keys_property (snd (snd (with_keys P cf d st
             (\<lambda>d' st'. with_values P d' st' (\<lambda>v st''. (Inr v, st''))))))
           = keys_property (snd st)"
    by (rule with_keys_property, rule with_values_property) simp_all
  from 1 2 show ?thesis
    by (simp add: values_on_def split: option.splits sum.splits)
qed

lemma step_keys_property:
  assumes K: "keys_property (snd st) = K"
  shows "keys_property (snd (step P cf d st x)) = K"
proof (cases x)
  case Keys
  then show ?thesis using K by (simp add: keys_on_def get_keys_property)
next
  case ResetKeys
  then show ?thesis using K by (auto simp: resetKeys_def split: option.splits)
next
  case ResetCache
  then show ?thesis using K by (simp add: resetCache_def)
next
  case SetFormats
  then show ?thesis using K by (simp add: setFormats_property)
next
  case Values
  then show ?thesis using K by (simp add: values_on_property)
next
  case DbItems
  have "\<And>v. keys_property (snd (snd (with_keys P cf d (snd (values_on P cf d st))
          (\<lambda>d' st'. (Inr (dbItems d' v), st'))))) = K"
    by (rule with_keys_property) (simp_all add: values_on_property K)
  then show ?thesis unfolding DbItems step.simps dbItems_on_def
    by (auto simp: values_on_property K split: sum.splits)
next
  case (Edit sh)
  then show ?thesis using K by simp
next
  case (InsertCheckboxes ks' out)
  show ?thesis unfolding InsertCheckboxes step.simps insertCheckboxes_on_def
    by (rule with_keys_property[OF _ K]) (simp add: medium_call_property split: sum.splits)
next
  case (ClearData out)
  have "keys_property (snd (snd (with_keys P cf d st
          (\<lambda>d' st'. case letter (lastDataColumn (keys d')) of Inl e \<Rightarrow> (Inl e, st')
                     | Inr b \<Rightarrow> medium_call out st')))) = K"
    by (rule with_keys_property[OF _ K]) (simp add: medium_call_property split: sum.splits)
  then show ?thesis unfolding ClearData step.simps clearData_on_def
    by (simp add: medium_call_property K split: sum.splits)
next
  case (Sort sortOptions out)
  have "keys_property (snd (snd (with_keys P cf d st
          (\<lambda>d' st'. case sort_check (keys d') sortOptions of Inl e \<Rightarrow> (Inl e, st')
                     | Inr u \<Rightarrow> medium_call out st')))) = K"
    by (rule with_keys_property[OF _ K]) (simp add: medium_call_property split: sum.splits)
  then show ?thesis unfolding Sort step.simps sort_on_def
    by (simp add: medium_call_property K)
next
  case (GetDataItems fcb icb ig)
  show ?thesis unfolding GetDataItems step.simps getDataItems_on_def
    by (rule with_keys_property[OF _ K], rule with_values_property) simp_all
next
  case (GetDataItemsObject useKeys fcb icb kcb ig)
  show ?thesis unfolding GetDataItemsObject step.simps getDataItemsObject_on_def
    by (rule with_keys_property[OF _ K], rule with_values_property) simp_all
next
  case (GetDataItemByRow r ig icb)
  show ?thesis unfolding GetDataItemByRow step.simps getDataItemByRow_on_def
    by (rule with_keys_property[OF _ K]) simp
next
  case (InsertDataItems dataItems defaultValue growUp)
  show ?thesis unfolding InsertDataItems step.simps insertDataItems_on_def
    by (rule with_keys_property[OF _ K]) (simp add: finish_property split: sum.splits)
next
  case (UpdateDataItems items)
  show ?thesis unfolding UpdateDataItems step.simps updateDataItems_on_def
    by (rule with_keys_property[OF _ K], rule with_values_property)
       (simp_all add: finish_property split: sum.splits)
next
  case (UpdateDataItemByRow r dataItem controlKeys ig)
  show ?thesis unfolding UpdateDataItemByRow step.simps updateDataItemByRow_on_def
    by (rule with_keys_property[OF _ K])
       (simp add: finish_property split: sum.splits prod.splits)
next
  case (MergeDataItems dataItems useKeys opts)
  show ?thesis unfolding MergeDataItems step.simps mergeDataItems_on_def
    by (rule with_keys_property[OF _ K], rule with_values_property)
       (simp_all add: finish_property split: sum.splits prod.splits)
next
  case (ReplaceData dataItems defaultValue)
  show ?thesis unfolding ReplaceData step.simps replaceData_on_def
    by (rule with_keys_property)
       (simp_all add: finish_property issued_property K split: sum.splits)
next
  case (DeleteDataItems items)
  then show ?thesis using K
    by (simp add: deleteDataItems_on_def finish_property split: sum.splits)
qed

lemma steps_keys_property:
  "keys_property (snd (foldl (step P cf d) st ops)) = keys_property (snd st)"
  by (induction ops arbitrary: st) (simp_all add: step_keys_property)

text \<open>
  C6, as stated: once the schema is resolved, no operation and no edit of the header row
  changes it for the life of the store, auto-discovery included.  A store built without
  keys keeps the schema in the cache \<^verbatim>\<open>_keys\<close>, and its \<^verbatim>\<open>resetKeys\<close> clears that cache:
  the store resolves \<^verbatim>\<open>sku\<close>, \<^verbatim>\<open>qty\<close> from the header row; after an edit of the header row
  and \<^verbatim>\<open>resetKeys\<close> it answers \<^verbatim>\<open>qty\<close>, \<^verbatim>\<open>sku\<close>.
\<close>

theorem C6_resetKeys_rereads_header:
  "new_store None = Inr \<lparr>keys_property = None, keys_cache = None, values_cache = None\<rparr>
   \<and> keys_on decimal keys_row_1 settings
        ([[JStr ''sku'', JStr ''qty''], [JStr ''A'', JNum 5]],
         \<lparr>keys_property = None, keys_cache = None, values_cache = None\<rparr>)
     = (Inr [(''sku'', JNum 0), (''qty'', JNum 1)],
        [[JStr ''sku'', JStr ''qty''], [JStr ''A'', JNum 5]],
        \<lparr>keys_property = None, keys_cache = Some [(''sku'', JNum 0), (''qty'', JNum 1)],
           values_cache = None\<rparr>)
   \<and> keys_after decimal keys_row_1 settings
        [Edit [[JStr ''qty'', JStr ''sku''], [JStr ''A'', JNum 5]], ResetKeys]
        ([[JStr ''sku'', JStr ''qty''], [JStr ''A'', JNum 5]],
         \<lparr>keys_property = None, keys_cache = Some [(''sku'', JNum 0), (''qty'', JNum 1)],
            values_cache = None\<rparr>)
     = Inr [(''qty'', JNum 0), (''sku'', JNum 1)]"
  by code_simp

text \<open>
  C6, amended.  The operations are the public methods and getters of the class, with any
  arguments (\<open>op\<close>: the getters \<^verbatim>\<open>keys\<close>, \<^verbatim>\<open>values\<close> and \<^verbatim>\<open>dbItems\<close>, the reads
  \<^verbatim>\<open>getDataItems\<close>, \<^verbatim>\<open>getDataItemsObject\<close> and \<^verbatim>\<open>getDataItemByRow\<close>, \<^verbatim>\<open>insertDataItems\<close>,
  \<^verbatim>\<open>insertCheckboxes\<close>, \<^verbatim>\<open>updateDataItems\<close>, \<^verbatim>\<open>updateDataItemByRow\<close>, \<^verbatim>\<open>mergeDataItems\<close>,
  \<^verbatim>\<open>replaceData\<close>, \<^verbatim>\<open>deleteDataItems\<close>, \<^verbatim>\<open>clearData\<close>, \<^verbatim>\<open>sort\<close>, \<^verbatim>\<open>setFormats\<close>, \<^verbatim>\<open>resetCache\<close>
  and \<^verbatim>\<open>resetKeys\<close>), and an edit of the sheet, which may leave any sheet.  A store built
  from explicit keys (a list or a mapping) answers the validated schema after every
  sequence of them, and its \<^verbatim>\<open>resetKeys\<close> throws.  A store built without keys that has resolved its schema from the
  header row answers the same schema after every sequence of them without \<^verbatim>\<open>resetKeys\<close>.
  After \<^verbatim>\<open>resetKeys\<close> a store built without keys answers the schema of the header row as
  the sheet then has it.
\<close>

theorem C6_schema_stability:
  "(validateAndSetKeys a = Inr ks \<and> new_store (Some a) = Inr s \<longrightarrow>
      keys_after P cf d ops (sh, s) = Inr ks
      \<and> fst (resetKeys s) = Inl (Error ''keys are imutable''))
   \<and> (keys_property s1 = None \<and> keys_cache s1 = Some ks' \<and> ResetKeys \<notin> set ops \<longrightarrow>
      keys_after P cf d ops (sh, s1) = Inr ks')
   \<and> (keys_property s2 = None \<longrightarrow>
      keys_after P cf d (ops @ [ResetKeys]) (sh, s2)
      = getKeysFromSheet_on P cf d (fst (foldl (step P cf d) (sh, s2) ops)))"
proof (intro conjI impI)
  assume a: "validateAndSetKeys a = Inr ks \<and> new_store (Some a) = Inr s"
  then have s: "s = \<lparr>keys_property = Some ks, keys_cache = None, values_cache = None\<rparr>"
    by (cases a) (auto simp: new_store_def split: if_splits)
  then have "held_schema (snd (sh, s)) = Some ks" "keys_property (snd (sh, s)) \<noteq> None"
    by (simp_all add: held_schema_def)
  then show "keys_after P cf d ops (sh, s) = Inr ks"
    by (intro keys_after_held) auto
  show "fst (resetKeys s) = Inl (Error ''keys are imutable'')"
    using s by (simp add: resetKeys_def)
next
  assume b: "keys_property s1 = None \<and> keys_cache s1 = Some ks' \<and> ResetKeys \<notin> set ops"
  then have "held_schema (snd (sh, s1)) = Some ks'" by (simp add: held_schema_def)
  then show "keys_after P cf d ops (sh, s1) = Inr ks'"
    using b by (intro keys_after_held) auto
next
  assume c: "keys_property s2 = None"
  define st where "st = foldl (step P cf d) (sh, s2) ops"
  have "keys_property (snd st) = None"
    using c by (simp add: st_def steps_keys_property)
  then have "held_schema (snd (fst st, snd (resetKeys (snd st)))) = None"
    by (simp add: resetKeys_def held_schema_def)
  then have "fst (get_keys P cf d (fst st) (snd (resetKeys (snd st))))
             = getKeysFromSheet_on P cf d (fst st)"
    by (simp add: get_keys_unheld)
  then show "keys_after P cf d (ops @ [ResetKeys]) (sh, s2)
      = getKeysFromSheet_on P cf d (fst (foldl (step P cf d) (sh, s2) ops))"
    by (simp add: keys_after_def keys_on_def st_def[symmetric])
qed

theorem C6_schema_stability_witness:
  "validateAndSetKeys (KeysArray [''sku'', ''qty'']) = Inr [(''sku'', JNum 0), (''qty'', JNum 1)]
   \<and> new_store (Some (KeysArray [''sku'', ''qty'']))
     = Inr \<lparr>keys_property = Some [(''sku'', JNum 0), (''qty'', JNum 1)], keys_cache = None,
            values_cache = None\<rparr>
   \<and> keys_after decimal keys_row_1 settings
        [Edit [[JStr ''qty'', JStr ''sku''], [JStr ''A'', JNum 5]],
         MergeDataItems (ItemsArray [[(''sku'', JStr ''B''), (''qty'', JNum 1)]]) (Str ''sku'')
           default_options,
         ResetKeys, Sort [(''qty'', ''asc'')] (Inr [[JStr ''qty'', JStr ''sku'']]),
         GetDataItems None None None]
        ([[JStr ''sku'', JStr ''qty''], [JStr ''A'', JNum 5]],
         \<lparr>keys_property = Some [(''sku'', JNum 0), (''qty'', JNum 1)], keys_cache = None,
            values_cache = None\<rparr>)
     = Inr [(''sku'', JNum 0), (''qty'', JNum 1)]
   \<and> keys_on decimal keys_row_1 settings
        ([[JStr ''sku'', JStr ''qty''], [JStr ''A'', JNum 5]],
         \<lparr>keys_property = None, keys_cache = None, values_cache = None\<rparr>)
     = (Inr [(''sku'', JNum 0), (''qty'', JNum 1)],
        [[JStr ''sku'', JStr ''qty''], [JStr ''A'', JNum 5]],
        \<lparr>keys_property = None, keys_cache = Some [(''sku'', JNum 0), (''qty'', JNum 1)],
           values_cache = None\<rparr>)
   \<and> ResetKeys \<notin> set [Edit [[JStr ''qty'', JStr ''sku''], [JStr ''A'', JNum 5]],
                        InsertDataItems [[(''sku'', JStr ''B''), (''qty'', JNum 1)]] JNull False,
                        UpdateDataItemByRow 2 [(''qty'', JNum 7)] None None, ResetCache,
                        DbItems, InsertCheckboxes (Str ''qty'') (Inr [[JStr ''qty'', JStr ''sku''], [JBool False, JStr ''A'']]),
                        ClearData (Inr [[JStr ''qty'', JStr ''sku'']])]
   \<and> keys_after decimal keys_row_1 settings
        [Edit [[JStr ''qty'', JStr ''sku''], [JStr ''A'', JNum 5]],
         InsertDataItems [[(''sku'', JStr ''B''), (''qty'', JNum 1)]] JNull False,
         UpdateDataItemByRow 2 [(''qty'', JNum 7)] None None, ResetCache,
         DbItems, InsertCheckboxes (Str ''qty'') (Inr [[JStr ''qty'', JStr ''sku''], [JBool False, JStr ''A'']]),
         ClearData (Inr [[JStr ''qty'', JStr ''sku'']])]
        ([[JStr ''sku'', JStr ''qty''], [JStr ''A'', JNum 5]],
         \<lparr>keys_property = None, keys_cache = Some [(''sku'', JNum 0), (''qty'', JNum 1)],
            values_cache = None\<rparr>)
     = Inr [(''sku'', JNum 0), (''qty'', JNum 1)]
   \<and> keys_after decimal keys_row_1 settings
        ([Edit [[JStr ''qty'', JStr ''sku''], [JStr ''A'', JNum 5]],
          InsertDataItems [[(''sku'', JStr ''B''), (''qty'', JNum 1)]] JNull False] @ [ResetKeys])
        ([[JStr ''sku'', JStr ''qty''], [JStr ''A'', JNum 5]],
         \<lparr>keys_property = None, keys_cache = Some [(''sku'', JNum 0), (''qty'', JNum 1)],
            values_cache = None\<rparr>)
     = Inr [(''qty'', JNum 0), (''sku'', JNum 1)]"
proof -
  define sh1 :: sheet where "sh1 = [[JStr ''sku'', JStr ''qty''], [JStr ''A'', JNum 5]]"
  define sh2 :: sheet where "sh2 = [[JStr ''qty'', JStr ''sku''], [JStr ''A'', JNum 5]]"
  define ks :: rawKeys where "ks = [(''sku'', JNum 0), (''qty'', JNum 1)]"
  define se where "se = \<lparr>keys_property = Some ks, keys_cache = None, values_cache = None\<rparr>"
  define s0 where "s0 = \<lparr>keys_property = None, keys_cache = None, values_cache = None\<rparr>"
  define s1 where "s1 = \<lparr>keys_property = None, keys_cache = Some ks, values_cache = None\<rparr>"
  define opsA where "opsA = [Edit sh2,
         MergeDataItems (ItemsArray [[(''sku'', JStr ''B''), (''qty'', JNum 1)]]) (Str ''sku'')
           default_options,
         ResetKeys, Sort [(''qty'', ''asc'')] (Inr [[JStr ''qty'', JStr ''sku'']]),
         GetDataItems None None None]"
  define opsB where "opsB = [Edit sh2,
                        InsertDataItems [[(''sku'', JStr ''B''), (''qty'', JNum 1)]] JNull False,
                        UpdateDataItemByRow 2 [(''qty'', JNum 7)] None None, ResetCache,
                        DbItems, InsertCheckboxes (Str ''qty'') (Inr [[JStr ''qty'', JStr ''sku''], [JBool False, JStr ''A'']]),
                        ClearData (Inr [[JStr ''qty'', JStr ''sku'']])]"
  have v: "validateAndSetKeys (KeysArray [''sku'', ''qty'']) = Inr ks"
    unfolding ks_def by code_simp
  have n: "new_store (Some (KeysArray [''sku'', ''qty''])) = Inr se"
    unfolding se_def ks_def by code_simp
  have g: "keys_on decimal keys_row_1 settings (sh1, s0) = (Inr ks, (sh1, s1))"
    unfolding sh1_def s0_def s1_def ks_def by code_simp
  define opsC where "opsC = [Edit sh2,
          InsertDataItems [[(''sku'', JStr ''B''), (''qty'', JNum 1)]] JNull False]"
  have r: "ResetKeys \<notin> set opsB"
    by (simp add: opsB_def)
  have p: "keys_property s1 = None" "keys_cache s1 = Some ks"
    by (simp_all add: s1_def)
  have h: "getKeysFromSheet_on decimal keys_row_1 settings
             (fst (foldl (step decimal keys_row_1 settings) (sh1, s1) opsC))
           = Inr [(''qty'', JNum 0), (''sku'', JNum 1)]"
    unfolding sh1_def sh2_def s1_def ks_def opsC_def by code_simp
  from C6_schema_stability[of "KeysArray [''sku'', ''qty'']" ks se decimal keys_row_1 settings
      opsA sh1] v n
  have A: "keys_after decimal keys_row_1 settings opsA (sh1, se) = Inr ks" by blast
  from C6_schema_stability[of _ _ _ decimal keys_row_1 settings opsB sh1 s1 ks] p r
  have B: "keys_after decimal keys_row_1 settings opsB (sh1, s1) = Inr ks" by blast
  from C6_schema_stability[of _ _ _ decimal keys_row_1 settings opsC sh1 _ _ s1] p h
  have C: "keys_after decimal keys_row_1 settings (opsC @ [ResetKeys]) (sh1, s1)
           = Inr [(''qty'', JNum 0), (''sku'', JNum 1)]" by simp
  from v n A g r B C show ?thesis
    unfolding sh1_def sh2_def ks_def se_def s0_def s1_def opsA_def opsB_def opsC_def by blast
qed

subsection \<open>Bulk delete by contiguous runs\<close>

lemma delete_chunks_loop_runs:
  "delete_chunks_loop items (cs @ [mk_chunk (f, l)])
   = cs @ map mk_chunk (runs_down f l (map row items))"
proof (induction items arbitrary: cs f l)
  case Nil
  then show ?case by simp
next
  case (Cons item items)
  show ?case
  proof (cases "f - row item = 1")
    case True
    have "(mk_chunk (f, l))\<lparr>firstRow := row item\<rparr> = mk_chunk (row item, l)"
      by (simp add: mk_chunk_def)
    with True Cons.IH[of cs "row item" l] show ?thesis
      by (simp add: mk_chunk_def)
  next
    case False
    have "delete_chunks_loop items ((cs @ [mk_chunk (f, l)]) @ [mk_chunk (row item, row item)])
          = (cs @ [mk_chunk (f, l)]) @ map mk_chunk (runs_down (row item) (row item) (map row items))"
      by (rule Cons.IH)
    with False show ?thesis by (simp add: mk_chunk_def)
  qed
qed

lemma runs_down_props:
  "sorted_wrt (>) (f # rs) \<Longrightarrow> f \<le> l \<Longrightarrow> (a, b) \<in> set (runs_down f l rs) \<Longrightarrow>
   a \<le> b \<and> b \<le> l \<and> a \<le> f \<and> {a..b} \<subseteq> {f..l} \<union> set rs
   \<and> a - 1 \<notin> {f..l} \<union> set rs \<and> b + 1 \<notin> {f..l} \<union> set rs"
proof (induction rs arbitrary: f l)
  case Nil
  then show ?case by auto
next
  case (Cons r rs)
  have fr: "r < f" and rs: "\<forall>x \<in> set rs. x < r" and srt: "sorted_wrt (>) (r # rs)"
    using Cons.prems(1) by auto
  show ?case
  proof (cases "f - r = 1")
    case True
    then have "(a, b) \<in> set (runs_down r l rs)" using Cons.prems(3) by simp
    from Cons.IH[OF srt _ this] fr Cons.prems(2)
    have ih: "a \<le> b \<and> b \<le> l \<and> a \<le> r \<and> {a..b} \<subseteq> {r..l} \<union> set rs
      \<and> a - 1 \<notin> {r..l} \<union> set rs \<and> b + 1 \<notin> {r..l} \<union> set rs" by simp
    have "{r..l} \<union> set rs = {f..l} \<union> set (r # rs)" using True Cons.prems(2) by auto
    with ih fr show ?thesis by auto
  next
    case False
    then have lt: "r < f - 1" using fr by simp
    from False Cons.prems(3)
    consider "(a, b) = (f, l)" | "(a, b) \<in> set (runs_down r r rs)" by auto
    then show ?thesis
    proof cases
      case 1
      then show ?thesis using Cons.prems(2) lt rs by auto
    next
      case 2
      from Cons.IH[OF srt _ 2]
      have ih: "a \<le> b \<and> b \<le> r \<and> a \<le> r \<and> {a..b} \<subseteq> {r..r} \<union> set rs
        \<and> a - 1 \<notin> {r..r} \<union> set rs \<and> b + 1 \<notin> {r..r} \<union> set rs" by simp
      then show ?thesis using lt Cons.prems(2) by auto
    qed
  qed
qed

lemma runs_down_cover:
  "f \<le> l \<Longrightarrow> x \<in> {f..l} \<union> set rs \<Longrightarrow> \<exists>(a, b) \<in> set (runs_down f l rs). a \<le> x \<and> x \<le> b"
proof (induction rs arbitrary: f l)
  case Nil
  then show ?case by auto
next
  case (Cons r rs)
  show ?case
  proof (cases "f - r = 1")
    case True
    have "x \<in> {r..l} \<union> set rs" using Cons.prems True by auto
    moreover have "r \<le> l" using Cons.prems(1) True by simp
    ultimately show ?thesis using Cons.IH[of r l] True by simp
  next
    case False
    show ?thesis
    proof (cases "x \<in> {f..l}")
      case True
      with False show ?thesis by auto
    next
      case no: False
      then have "x \<in> {r..r} \<union> set rs" using Cons.prems(2) by auto
      from Cons.IH[of r r, OF _ this] False show ?thesis by auto
    qed
  qed
qed

lemma runs_down_sorted:
  "sorted_wrt (>) (f # rs) \<Longrightarrow> f \<le> l \<Longrightarrow> sorted_wrt (\<lambda>p q. fst q < fst p) (runs_down f l rs)"
proof (induction rs arbitrary: f l)
  case Nil
  then show ?case by simp
next
  case (Cons r rs)
  have fr: "r < f" and srt: "sorted_wrt (>) (r # rs)"
    using Cons.prems(1) by auto
  show ?case
  proof (cases "f - r = 1")
    case True
    with Cons.IH[OF srt, of l] fr Cons.prems(2) show ?thesis by simp
  next
    case False
    have "\<forall>q \<in> set (runs_down r r rs). fst q < f"
    proof
      fix q assume "q \<in> set (runs_down r r rs)"
      then have "(fst q, snd q) \<in> set (runs_down r r rs)" by simp
      from runs_down_props[OF srt _ this] have "fst q \<le> r" by simp
      with fr show "fst q < f" by simp
    qed
    with False Cons.IH[OF srt, of r] show ?thesis by simp
  qed
qed


lemma distinct_map_sort_key: "distinct (map f (sort_key f xs)) = distinct (map f xs)"
  by (induction xs) (simp_all add: distinct_insort_key)

lemma runs_down_maximal:
  assumes srt: "sorted_wrt (>) (f # rs)"
  shows "set (map run_of (runs_down f f rs)) = Collect (maximal_run ({f} \<union> set rs))"
proof (intro equalityI subsetI)
  fix p assume "p \<in> set (map run_of (runs_down f f rs))"
  then obtain a b where ab: "(a, b) \<in> set (runs_down f f rs)" and p: "p = (a, b - a + 1)"
    by (auto simp: run_of_def)
  from runs_down_props[OF srt _ ab]
  have "a \<le> b" "{a..b} \<subseteq> {f} \<union> set rs" "a - 1 \<notin> {f} \<union> set rs" "b + 1 \<notin> {f} \<union> set rs"
    by auto
  moreover have "{a ..< a + (b - a + 1)} = {a..b}" by auto
  ultimately show "p \<in> Collect (maximal_run ({f} \<union> set rs))"
    unfolding p maximal_run_def by simp
next
  fix p assume "p \<in> Collect (maximal_run ({f} \<union> set rs))"
  then obtain g n where p: "p = (g, n)" and n: "1 \<le> n"
    and sub: "{g ..< g + n} \<subseteq> {f} \<union> set rs"
    and lo: "g - 1 \<notin> {f} \<union> set rs" and hi: "g + n \<notin> {f} \<union> set rs"
    by (cases p) (auto simp: maximal_run_def)
  have gin: "g \<in> {g ..< g + n}" using n by simp
  have "g \<in> {f} \<union> set rs" using sub gin by (rule subsetD)
  then have "g \<in> {f..f} \<union> set rs" by simp
  from runs_down_cover[OF _ this]
  obtain a b where ab: "(a, b) \<in> set (runs_down f f rs)" and ag: "a \<le> g" and gb: "g \<le> b"
    by auto
  from runs_down_props[OF srt _ ab]
  have sub': "{a..b} \<subseteq> {f} \<union> set rs" and lo': "a - 1 \<notin> {f} \<union> set rs"
    and hi': "b + 1 \<notin> {f} \<union> set rs"
    by auto
  have "a = g"
  proof (rule ccontr)
    assume "a \<noteq> g"
    with ag gb have "g - 1 \<in> {a..b}" by auto
    with sub' lo show False by blast
  qed
  moreover have "g + n = b + 1"
  proof (rule ccontr)
    assume ne: "g + n \<noteq> b + 1"
    show False
    proof (cases "g + n \<le> b")
      case True
      with n \<open>a = g\<close> have "g + n \<in> {a..b}" by auto
      with sub' hi show False by blast
    next
      case False
      with ne gb have "b + 1 \<in> {g ..< g + n}" by auto
      with sub hi' show False by blast
    qed
  qed
  ultimately have "p = run_of (a, b)" unfolding p run_of_def by auto
  with ab show "p \<in> set (map run_of (runs_down f f rs))" by auto
qed

lemma runs_down_run_of_sorted:
  assumes "sorted_wrt (>) (f # rs)"
  shows "sorted_wrt (\<lambda>p q. fst q < fst p) (map run_of (runs_down f f rs))"
proof -
  have "sorted_wrt (\<lambda>p q. fst q < fst p) (runs_down f f rs)"
    using assms by (intro runs_down_sorted) auto
  moreover have "\<And>p q. fst (run_of q) < fst (run_of p) \<longleftrightarrow> fst q < fst p"
    by (auto simp: run_of_def split: prod.splits)
  ultimately show ?thesis by (simp add: sorted_wrt_map)
qed

lemma sorted_wrt_fst_distinct:
  "sorted_wrt (\<lambda>p q. fst q < fst p) (xs :: (int \<times> int) list) \<Longrightarrow> distinct xs"
  by (induction xs) auto

text \<open>
  C2, as stated: for every non-empty collection of records with rows, the calls of
  \<^verbatim>\<open>deleteRows\<close> are the maximal runs of the row set.  An array that holds a record
  twice gives two calls for the one run of its row.
\<close>

theorem C2_same_row_twice:
  "deleteDataItems [\<lparr>props = [(''sku'', JStr ''A'')], row = 5\<rparr>,
                    \<lparr>props = [(''sku'', JStr ''A'')], row = 5\<rparr>]
   = Inr [DeleteRows 5 1, DeleteRows 5 1]
   \<and> Collect (maximal_run {5}) = {(5, 1)}
   \<and> row ` set [\<lparr>props = [(''sku'', JStr ''A'')], row = 5\<rparr>,
                 \<lparr>props = [(''sku'', JStr ''A'')], row = 5\<rparr>] = {5}"
proof -
  have "deleteDataItems [\<lparr>props = [(''sku'', JStr ''A'')], row = 5\<rparr>,
                    \<lparr>props = [(''sku'', JStr ''A'')], row = 5\<rparr>]
   = Inr [DeleteRows 5 1, DeleteRows 5 1]"
    by code_simp
  moreover have "Collect (maximal_run {5}) = {(5, 1)}"
  proof (intro equalityI subsetI)
    fix p assume "p \<in> Collect (maximal_run {5})"
    then obtain f n where p: "p = (f, n)" and n: "1 \<le> n" and sub: "{f ..< f + n} \<subseteq> {5}"
      by (cases p) (auto simp: maximal_run_def)
    have "f \<in> {f ..< f + n}" using n by simp
    with sub have f: "f = 5" by blast
    have "n = 1"
    proof (rule ccontr)
      assume "n \<noteq> 1"
      with n have m: "f + 1 \<in> {f ..< f + n}" by simp
      have "f + 1 \<in> {5}" using sub m by (rule subsetD)
      with f show False by simp
    qed
    with f p show "p \<in> {(5, 1)}" by simp
  next
    fix p :: "int \<times> int" assume "p \<in> {(5, 1)}"
    then show "p \<in> Collect (maximal_run {5})" by (auto simp: maximal_run_def)
  qed
  ultimately show ?thesis by simp
qed

text \<open>
  C2, amended: for every non-empty collection of records with pairwise different rows,
  \<^verbatim>\<open>deleteDataItems\<close> issues one \<^verbatim>\<open>deleteRows\<close> call for each maximal run of consecutive
  rows of the row set and no other call, so as many calls as there are runs, and the
  calls go from the highest run to the lowest.
\<close>

theorem C2_deleteDataItems_runs:
  assumes ne: "items \<noteq> []" and dist: "distinct (map row items)"
  shows "\<exists>runs. deleteDataItems items = Inr (map (\<lambda>(f, n). DeleteRows f n) runs)
           \<and> set runs = Collect (maximal_run (row ` set items))
           \<and> length runs = card (Collect (maximal_run (row ` set items)))
           \<and> sorted_wrt (\<lambda>p q. fst q < fst p) runs"
proof -
  define xs where "xs = sort_key row items"
  have xs_ne: "xs \<noteq> []" using ne unfolding xs_def by (metis length_sort length_0_conv)
  define d0 where "d0 = row (last xs)"
  define ds where "ds = map row (rev (butlast xs))"
  have "sorted (map row xs)" "distinct (map row xs)"
    unfolding xs_def using dist by (simp_all add: distinct_map_sort_key)
  then have "sorted_wrt (<) (map row xs)" by (simp add: strict_sorted_iff)
  then have "sorted_wrt (>) (rev (map row xs))" by (simp add: sorted_wrt_rev)
  moreover have "rev (map row xs) = d0 # ds"
  proof -
    have "xs = butlast xs @ [last xs]" using xs_ne by simp
    then have "rev (map row xs) = rev (map row (butlast xs @ [last xs]))" by simp
    then show ?thesis unfolding d0_def ds_def by (simp add: rev_map)
  qed
  ultimately have srt: "sorted_wrt (>) (d0 # ds)" by simp
  have R: "row ` set items = {d0} \<union> set ds"
  proof -
    have "row ` set items = set (rev (map row xs))" unfolding xs_def by simp
    then show ?thesis unfolding \<open>rev (map row xs) = d0 # ds\<close> by simp
  qed
  define runs where "runs = map run_of (runs_down d0 d0 ds)"
  have "delete_chunks_loop (rev (butlast xs)) ([] @ [mk_chunk (d0, d0)])
        = [] @ map mk_chunk (runs_down d0 d0 (map row (rev (butlast xs))))"
    by (rule delete_chunks_loop_runs)
  then have "deleteDataItemsByChunks xs
        = Inr (map (\<lambda>chunk. DeleteRows (firstRow chunk) (lastRow chunk - firstRow chunk + 1))
                 (map mk_chunk (runs_down d0 d0 ds)))"
    using xs_ne unfolding deleteDataItemsByChunks_def d0_def ds_def mk_chunk_def by simp
  moreover have "map (\<lambda>chunk. DeleteRows (firstRow chunk) (lastRow chunk - firstRow chunk + 1))
                 (map mk_chunk (runs_down d0 d0 ds)) = map (\<lambda>(f, n). DeleteRows f n) runs"
    unfolding runs_def by (simp add: mk_chunk_def run_of_def case_prod_beta)
  ultimately have 1: "deleteDataItems items = Inr (map (\<lambda>(f, n). DeleteRows f n) runs)"
    using xs_ne unfolding deleteDataItems_def xs_def by (simp add: Let_def)
  have 2: "set runs = Collect (maximal_run (row ` set items))"
    unfolding runs_def R by (rule runs_down_maximal[OF srt])
  have 4: "sorted_wrt (\<lambda>p q. fst q < fst p) runs"
    unfolding runs_def by (rule runs_down_run_of_sorted[OF srt])
  then have "distinct runs" by (rule sorted_wrt_fst_distinct)
  then have 3: "length runs = card (Collect (maximal_run (row ` set items)))"
    using 2 by (metis distinct_card)
  from 1 2 3 4 show ?thesis by blast
qed


theorem C2_deleteDataItems_runs_witness:
  "[\<lparr>props = [], row = 10\<rparr>, \<lparr>props = [], row = 5\<rparr>, \<lparr>props = [], row = 7\<rparr>,
    \<lparr>props = [], row = 6\<rparr>] \<noteq> []
   \<and> distinct (map row [\<lparr>props = [], row = 10\<rparr>, \<lparr>props = [], row = 5\<rparr>,
                         \<lparr>props = [], row = 7\<rparr>, \<lparr>props = [], row = 6\<rparr>])
   \<and> deleteDataItems [\<lparr>props = [], row = 10\<rparr>, \<lparr>props = [], row = 5\<rparr>,
                      \<lparr>props = [], row = 7\<rparr>, \<lparr>props = [], row = 6\<rparr>]
     = Inr [DeleteRows 10 1, DeleteRows 5 3]
   \<and> Collect (maximal_run (row ` set [\<lparr>props = [], row = 10\<rparr>, \<lparr>props = [], row = 5\<rparr>,
                         \<lparr>props = [], row = 7\<rparr>, \<lparr>props = [], row = 6\<rparr>]))
     = {(10, 1), (5, 3)}"
proof -
  define items where "items = [\<lparr>props = [], row = 10\<rparr>, \<lparr>props = [], row = 5\<rparr>,
                               \<lparr>props = [], row = 7\<rparr>, \<lparr>props = [], row = 6\<rparr>]"
  have h1: "items \<noteq> []" and h2: "distinct (map row items)"
    by (simp_all add: items_def)
  have e: "deleteDataItems items = Inr [DeleteRows 10 1, DeleteRows 5 3]"
    unfolding items_def by code_simp
  from C2_deleteDataItems_runs[OF h1 h2]
  obtain runs where r1: "deleteDataItems items = Inr (map (\<lambda>(f, n). DeleteRows f n) runs)"
    and r2: "set runs = Collect (maximal_run (row ` set items))"
    by blast
  from r1 e have "map (\<lambda>(f, n). DeleteRows f n) runs = [DeleteRows 10 1, DeleteRows 5 3]"
    by simp
  then have "runs = [(10, 1), (5, 3)]"
    by (auto simp: map_eq_Cons_conv)
  with r2 have "Collect (maximal_run (row ` set items)) = {(10, 1), (5, 3)}"
    by simp
  with h1 h2 e show ?thesis unfolding items_def by simp
qed

subsection \<open>Objects as association lists\<close>

lemma js_in_iff: "js_in h obj \<longleftrightarrow> h \<in> fst ` set obj"
  by (simp add: js_in_def map_of_eq_None_iff)

lemma js_in_js_set: "js_in h (js_set obj k v) \<longleftrightarrow> h = k \<or> js_in h obj"
  by (auto simp: js_in_def js_set_def update_conv')


lemma set_js_set: "set (js_set obj k v) \<subseteq> insert (k, v) (set obj)"
  unfolding js_set_def by (induction obj) auto


subsection \<open>Merge: which set a hash goes to\<close>

lemma merge_loop_frame:
  "currentItemsObj (merge_loop isU upd inc m) = currentItemsObj m
   \<and> dataItemsObj (merge_loop isU upd inc m) = dataItemsObj m
   \<and> itemsToDelete (merge_loop isU upd inc m) = itemsToDelete m"
  by (induction isU upd inc m rule: merge_loop.induct) (auto split: option.splits)

lemma merge_loop_insert:
  "js_in h (itemsToInsert (merge_loop isU upd inc m)) \<Longrightarrow>
   js_in h (itemsToInsert m) \<or> map_of (currentItemsObj m) h = None"
  by (induction isU upd inc m rule: merge_loop.induct)
     (auto simp: js_in_js_set split: option.splits if_splits)

lemma delete_loop_frame:
  "currentItemsObj (delete_loop isD cur m) = currentItemsObj m
   \<and> dataItemsObj (delete_loop isD cur m) = dataItemsObj m
   \<and> itemsToUpdate (delete_loop isD cur m) = itemsToUpdate m
   \<and> itemsToInsert (delete_loop isD cur m) = itemsToInsert m"
  by (induction isD cur m rule: delete_loop.induct) auto

lemma delete_loop_keys:
  "js_in h (itemsToDelete (delete_loop isD cur m)) \<Longrightarrow>
   js_in h (itemsToDelete m) \<or> \<not> in_object h (dataItemsObj m)"
  by (induction isD cur m rule: delete_loop.induct)
     (auto simp: js_in_js_set split: if_splits)

lemma delete_loop_entries:
  "p \<in> set (itemsToDelete (delete_loop isD cur m)) \<Longrightarrow>
   p \<in> set (itemsToDelete m) \<or> p \<in> set cur"
proof (induction isD cur m rule: delete_loop.induct)
  case (1 isD m)
  then show ?case by simp
next
  case (2 isD hash currentItem rest m)
  show ?case
  proof (cases "\<not> in_DBItemsObject hash (itemsToUpdate m) \<and> \<not> in_object hash (dataItemsObj m)
         \<and> isD currentItem")
    case True
    with 2 have "p \<in> set (js_set (itemsToDelete m) hash currentItem) \<or> p \<in> set rest"
      by auto
    then show ?thesis using set_js_set[of "itemsToDelete m" hash currentItem] by auto
  next
    case False
    with 2 show ?thesis by auto
  qed
qed

lemma getDataItemsObject_loop_entries:
  "(h, c) \<in> set (getDataItemsObject_loop P d fcb None kcb None hf zs items) \<Longrightarrow>
   (h, c) \<in> set items \<or> c \<in> snd ` set zs"
proof (induction zs arbitrary: items)
  case Nil
  then show ?case by simp
next
  case (Cons z zs)
  obtain e dbItem where z: "z = (e, dbItem)" by (cases z)
  show ?case
  proof (cases "e \<or> (case fcb of None \<Rightarrow> False | Some f \<Rightarrow> \<not> f dbItem)")
    case True
    with Cons z show ?thesis by (auto split: if_splits)
  next
    case False
    with Cons.prems z
    have "(h, c) \<in> set (getDataItemsObject_loop P d fcb None kcb None hf zs
             (js_set items (hashKey P hf kcb (own_props dbItem)) dbItem))"
      by (auto simp: Let_def copy_item_def)
    from Cons.IH[OF this] show ?thesis
      using set_js_set[of items "hashKey P hf kcb (own_props dbItem)" dbItem] z by auto
  qed
qed

lemma dbItems_row:
  "c \<in> set (dbItems d values) \<Longrightarrow>
   dataRowFirst d \<le> row c \<and> row c < dataRowFirst d + int (length values)"
  by (auto simp: dbItems_def in_set_enumerate_eq)

lemma getDataItemsObject_rows:
  assumes "getDataItemsObject P d values useKeys fcb None kcb None = Inr cur"
    and "(h, c) \<in> set cur"
  shows "dataRowFirst d \<le> row c \<and> row c < dataRowFirst d + int (length values)"
proof -
  from assms obtain hf where
    "(h, c) \<in> set (getDataItemsObject_loop P d fcb None kcb None hf
        (zip (rowsEmptyStatuses values) (dbItems d values)) [])"
    by (auto simp: getDataItemsObject_def split: sum.splits)
  from getDataItemsObject_loop_entries[OF this]
  have "c \<in> snd ` set (zip (rowsEmptyStatuses values) (dbItems d values))" by simp
  then have "c \<in> set (dbItems d values)" by (auto dest: set_zip_rightD)
  then show ?thesis by (rule dbItems_row)
qed

lemma merge_sets_Inr:
  assumes "merge_sets P d values dataItems useKeys opts = Inr m"
  obtains cur inc where
    "getDataItemsObject P d values useKeys (filterCB opts) None (keyCB opts) None = Inr cur"
    "incoming_of P d dataItems useKeys opts = Inr inc"
    "m = (case isDeleteCB opts of
            None \<Rightarrow> merge_loop (isUpdate_of P d useKeys opts) (update_of d useKeys opts) inc
                      (empty_sets cur inc)
          | Some isD \<Rightarrow>
              delete_loop isD cur
                (merge_loop (isUpdate_of P d useKeys opts) (update_of d useKeys opts) inc
                   (empty_sets cur inc)))"
  using assms by (auto simp: merge_sets_def Let_def split: sum.splits)

lemma merge_sets_current:
  assumes "merge_sets P d values dataItems useKeys opts = Inr m"
  shows "getDataItemsObject P d values useKeys (filterCB opts) None (keyCB opts) None
           = Inr (currentItemsObj m)
         \<and> incoming_of P d dataItems useKeys opts = Inr (dataItemsObj m)
         \<and> itemsToUpdate m
           = itemsToUpdate (merge_loop (isUpdate_of P d useKeys opts) (update_of d useKeys opts)
                              (dataItemsObj m) (empty_sets (currentItemsObj m) (dataItemsObj m)))
         \<and> itemsToInsert m
           = itemsToInsert (merge_loop (isUpdate_of P d useKeys opts) (update_of d useKeys opts)
                              (dataItemsObj m) (empty_sets (currentItemsObj m) (dataItemsObj m)))"
proof -
  from assms obtain cur inc where
    cur: "getDataItemsObject P d values useKeys (filterCB opts) None (keyCB opts) None = Inr cur"
    and inc: "incoming_of P d dataItems useKeys opts = Inr inc"
    and m: "m = (case isDeleteCB opts of
            None \<Rightarrow> merge_loop (isUpdate_of P d useKeys opts) (update_of d useKeys opts) inc
                      (empty_sets cur inc)
          | Some isD \<Rightarrow>
              delete_loop isD cur
                (merge_loop (isUpdate_of P d useKeys opts) (update_of d useKeys opts) inc
                   (empty_sets cur inc)))"
    by (rule merge_sets_Inr)
  have "currentItemsObj m = cur" "dataItemsObj m = inc"
    unfolding m by (simp_all add: merge_loop_frame delete_loop_frame empty_sets_def split: option.splits)
  moreover have "itemsToUpdate m = itemsToUpdate (merge_loop (isUpdate_of P d useKeys opts)
                    (update_of d useKeys opts) inc (empty_sets cur inc))"
    "itemsToInsert m = itemsToInsert (merge_loop (isUpdate_of P d useKeys opts)
                    (update_of d useKeys opts) inc (empty_sets cur inc))"
    unfolding m by (simp_all add: delete_loop_frame split: option.splits)
  ultimately show ?thesis using cur inc by simp
qed

text \<open>
  C3.  In every merge that reaches the three sets, a hash that is a property of both the
  current and the incoming object is in neither the insert set nor the delete set, and
  every record of the delete set is one of the current records, with the row of the
  grid it was read from.
\<close>

theorem C3_merge_identity:
  assumes "merge_sets P d values dataItems useKeys opts = Inr m"
  shows "getDataItemsObject P d values useKeys (filterCB opts) None (keyCB opts) None
           = Inr (currentItemsObj m)
       \<and> incoming_of P d dataItems useKeys opts = Inr (dataItemsObj m)
       \<and> (\<forall>h. js_in h (currentItemsObj m) \<and> js_in h (dataItemsObj m) \<longrightarrow>
              \<not> js_in h (itemsToInsert m) \<and> \<not> js_in h (itemsToDelete m))
       \<and> (\<forall>(h, c) \<in> set (itemsToDelete m).
              (h, c) \<in> set (currentItemsObj m)
              \<and> dataRowFirst d \<le> row c \<and> row c < dataRowFirst d + int (length values))"
proof -
  note f = merge_sets_current[OF assms]
  from assms obtain cur inc where
    cur: "getDataItemsObject P d values useKeys (filterCB opts) None (keyCB opts) None = Inr cur"
    and m: "m = (case isDeleteCB opts of
            None \<Rightarrow> merge_loop (isUpdate_of P d useKeys opts) (update_of d useKeys opts) inc
                      (empty_sets cur inc)
          | Some isD \<Rightarrow>
              delete_loop isD cur
                (merge_loop (isUpdate_of P d useKeys opts) (update_of d useKeys opts) inc
                   (empty_sets cur inc)))"
    by (rule merge_sets_Inr)
  define m0 where "m0 = merge_loop (isUpdate_of P d useKeys opts) (update_of d useKeys opts) inc
                          (empty_sets cur inc)"
  have m': "m = (case isDeleteCB opts of None \<Rightarrow> m0 | Some isD \<Rightarrow> delete_loop isD cur m0)"
    unfolding m0_def by (rule m)
  have m0f: "currentItemsObj m0 = cur" "dataItemsObj m0 = inc" "itemsToDelete m0 = []"
    by (simp_all add: m0_def merge_loop_frame empty_sets_def)
  have mf: "currentItemsObj m = cur" "dataItemsObj m = inc" "itemsToInsert m = itemsToInsert m0"
    using m0f by (auto simp: m' delete_loop_frame split: option.splits)
  have ins: "\<And>h. js_in h cur \<Longrightarrow> \<not> js_in h (itemsToInsert m)"
  proof
    fix h assume hc: "js_in h cur" and "js_in h (itemsToInsert m)"
    then have "js_in h (itemsToInsert m0)" by (simp add: mf)
    from merge_loop_insert[OF this[unfolded m0_def]] hc show False
      by (simp add: js_in_def empty_sets_def)
  qed
  have del: "\<And>h. js_in h inc \<Longrightarrow> \<not> js_in h (itemsToDelete m)"
  proof
    fix h assume hi: "js_in h inc" and hd: "js_in h (itemsToDelete m)"
    show False
    proof (cases "isDeleteCB opts")
      case None
      with hd m0f show False by (simp add: m' js_in_def)
    next
      case (Some isD)
      with hd have "js_in h (itemsToDelete (delete_loop isD cur m0))" by (simp add: m')
      from delete_loop_keys[OF this] hi m0f show False
        by (simp add: js_in_def in_object_def)
    qed
  qed
  have ent: "\<And>h c. (h, c) \<in> set (itemsToDelete m) \<Longrightarrow> (h, c) \<in> set cur"
  proof -
    fix h c assume hd: "(h, c) \<in> set (itemsToDelete m)"
    show "(h, c) \<in> set cur"
    proof (cases "isDeleteCB opts")
      case None
      with hd m0f show ?thesis by (simp add: m')
    next
      case (Some isD)
      with hd have "(h, c) \<in> set (itemsToDelete (delete_loop isD cur m0))" by (simp add: m')
      from delete_loop_entries[OF this] m0f show ?thesis by simp
    qed
  qed
  show ?thesis
  proof (intro conjI)
    show "\<forall>h. js_in h (currentItemsObj m) \<and> js_in h (dataItemsObj m) \<longrightarrow>
              \<not> js_in h (itemsToInsert m) \<and> \<not> js_in h (itemsToDelete m)"
      using ins del by (simp add: mf)
    show "\<forall>(h, c) \<in> set (itemsToDelete m).
              (h, c) \<in> set (currentItemsObj m)
              \<and> dataRowFirst d \<le> row c \<and> row c < dataRowFirst d + int (length values)"
      using ent getDataItemsObject_rows[OF cur] by (auto simp: mf)
  qed (use f in simp_all)
qed

theorem C3_merge_identity_witness:
  "merge_sets decimal sku_qty [[JStr ''A'', JNum 5], [JStr ''B'', JNum 3]]
     (ItemsArray [[(''sku'', JStr ''A''), (''qty'', JNum 7)],
                  [(''sku'', JStr ''C''), (''qty'', JNum 1)]])
     (Str ''sku'') delete_all_options
   = Inr \<lparr>currentItemsObj =
            [(''A'', \<lparr>props = [(''sku'', JStr ''A''), (''qty'', JNum 5)], row = 2\<rparr>),
             (''B'', \<lparr>props = [(''sku'', JStr ''B''), (''qty'', JNum 3)], row = 3\<rparr>)],
          dataItemsObj =
            [(''A'', [(''sku'', JStr ''A''), (''qty'', JNum 7)]),
             (''C'', [(''sku'', JStr ''C''), (''qty'', JNum 1)])],
          itemsToUpdate =
            [(''A'', \<lparr>props = [(''sku'', JStr ''A''), (''qty'', JNum 7)], row = 2\<rparr>)],
          itemsToInsert = [(''C'', [(''sku'', JStr ''C''), (''qty'', JNum 1)])],
          itemsToDelete =
            [(''B'', \<lparr>props = [(''sku'', JStr ''B''), (''qty'', JNum 3)], row = 3\<rparr>)],
          updated = 1, inserted = 1, deleted = 1\<rparr>
   \<and> (\<exists>m. merge_sets decimal sku_qty [[JStr ''A'', JNum 5], [JStr ''B'', JNum 3]]
            (ItemsArray [[(''sku'', JStr ''A''), (''qty'', JNum 7)],
                         [(''sku'', JStr ''C''), (''qty'', JNum 1)]])
            (Str ''sku'') delete_all_options = Inr m
          \<and> js_in ''A'' (currentItemsObj m) \<and> js_in ''A'' (dataItemsObj m)
          \<and> \<not> js_in ''A'' (itemsToInsert m) \<and> \<not> js_in ''A'' (itemsToDelete m)
          \<and> (''B'', \<lparr>props = [(''sku'', JStr ''B''), (''qty'', JNum 3)], row = 3\<rparr>)
              \<in> set (itemsToDelete m)
          \<and> (''B'', \<lparr>props = [(''sku'', JStr ''B''), (''qty'', JNum 3)], row = 3\<rparr>)
              \<in> set (currentItemsObj m))"
proof -
  define m where "m = \<lparr>currentItemsObj =
            [(''A'', \<lparr>props = [(''sku'', JStr ''A''), (''qty'', JNum 5)], row = 2\<rparr>),
             (''B'', \<lparr>props = [(''sku'', JStr ''B''), (''qty'', JNum 3)], row = 3\<rparr>)],
          dataItemsObj =
            [(''A'', [(''sku'', JStr ''A''), (''qty'', JNum 7)]),
             (''C'', [(''sku'', JStr ''C''), (''qty'', JNum 1)])],
          itemsToUpdate =
            [(''A'', \<lparr>props = [(''sku'', JStr ''A''), (''qty'', JNum 7)], row = 2\<rparr>)],
          itemsToInsert = [(''C'', [(''sku'', JStr ''C''), (''qty'', JNum 1)])],
          itemsToDelete =
            [(''B'', \<lparr>props = [(''sku'', JStr ''B''), (''qty'', JNum 3)], row = 3\<rparr>)],
          updated = 1, inserted = 1, deleted = 1\<rparr>"
  have e: "merge_sets decimal sku_qty [[JStr ''A'', JNum 5], [JStr ''B'', JNum 3]]
     (ItemsArray [[(''sku'', JStr ''A''), (''qty'', JNum 7)],
                  [(''sku'', JStr ''C''), (''qty'', JNum 1)]])
     (Str ''sku'') delete_all_options = Inr m"
    unfolding m_def by code_simp
  have a: "js_in ''A'' (currentItemsObj m)" "js_in ''A'' (dataItemsObj m)"
    by (simp_all add: m_def js_in_def)
  have b: "(''B'', \<lparr>props = [(''sku'', JStr ''B''), (''qty'', JNum 3)], row = 3\<rparr>)
              \<in> set (itemsToDelete m)"
    by (simp add: m_def)
  from C3_merge_identity[OF e] a b
  have "\<not> js_in ''A'' (itemsToInsert m) \<and> \<not> js_in ''A'' (itemsToDelete m)
        \<and> (''B'', \<lparr>props = [(''sku'', JStr ''B''), (''qty'', JNum 3)], row = 3\<rparr>)
              \<in> set (currentItemsObj m)"
    by blast
  with e a b show ?thesis unfolding m_def by blast
qed

subsection \<open>Merge: the default comparison and the default update\<close>



















subsection \<open>Point update with control keys\<close>

text \<open>On the default settings the row is read and written in full, and a cell of the row
  that belongs to no field is written \<^verbatim>\<open>null\<close>: with the fields \<^verbatim>\<open>sku\<close> and \<^verbatim>\<open>qty\<close> in
  columns A and C, the update of \<^verbatim>\<open>qty\<close> empties the cell of column B.  A control key that
  names an inherited property is compared as the source compares it: \<^verbatim>\<open>constructor\<close> is
  \<^verbatim>\<open>DBItem\<close> in the record read and \<^verbatim>\<open>Object\<close> in the record supplied, and the update is
  refused; \<^verbatim>\<open>toString\<close> is the same function in both, and with \<^verbatim>\<open>qty\<close> among the ignored
  keys only \<^verbatim>\<open>sku\<close> is written.\<close>

lemma updateDataItemByRow_examples:
  "update_on_sheet sku_qty [[JStr ''sku'', JStr ''qty''], [JStr ''A'', JNum 5]] 2
     [(''sku'', JStr ''A''), (''qty'', JNum 9)] (Some (Arr [''sku''])) None
   = Inr (True, [[JStr ''sku'', JStr ''qty''], [JStr ''A'', JNum 9]])
   \<and> update_on_sheet sku_qty [[JStr ''sku'', JStr ''qty''], [JStr ''A'', JNum 5]] 2
       [(''sku'', JStr ''B''), (''qty'', JNum 9)] (Some (Arr [''sku''])) None
     = Inr (False, [[JStr ''sku'', JStr ''qty''], [JStr ''A'', JNum 5]])
   \<and> update_on_sheet (sku_qty\<lparr>keys := [(''sku'', 0), (''qty'', 2)]\<rparr>)
       [[JStr ''sku'', JStr '''', JStr ''qty''], [JStr ''A'', JStr ''note'', JNum 5]] 2
       [(''sku'', JStr ''A''), (''qty'', JNum 9)] (Some (Arr [''sku''])) None
     = Inr (True, [[JStr ''sku'', JStr '''', JStr ''qty''], [JStr ''A'', JStr '''', JNum 9]])
   \<and> update_on_sheet sku_qty [[JStr ''sku'', JStr ''qty''], [JStr ''A'', JNum 5]] 2
       [(''sku'', JStr ''A''), (''qty'', JNum 9)] (Some (Arr [''constructor''])) None
     = Inr (False, [[JStr ''sku'', JStr ''qty''], [JStr ''A'', JNum 5]])
   \<and> update_on_sheet sku_qty [[JStr ''sku'', JStr ''qty''], [JStr ''A'', JNum 5]] 2
       [(''sku'', JStr ''B''), (''qty'', JNum 9)] (Some (Arr [''toString''])) (Some (Str ''qty''))
     = Inr (True, [[JStr ''sku'', JStr ''qty''], [JStr ''B'', JNum 5]])"
  by code_simp

text \<open>
  C5.  The claim: when the control fields agree, the point update overwrites only the
  fields of the record supplied and returns success; when one differs from the record on
  the sheet, it returns a failure value.  The store has its fields \<^verbatim>\<open>sku\<close> and \<^verbatim>\<open>qty\<close> in
  columns B and C (\<^verbatim>\<open>dataColumnFirst\<close> is 2), and row 2 of the sheet holds \<open>A\<close> and 5
  there.  The method reads \<^verbatim>\<open>lastDataColumn - dataColumnFirst + 1\<close> cells of the row, which
  is one cell, so the record read has \<^verbatim>\<open>qty: undefined\<close>.  With the record \<^verbatim>\<open>{sku: "A"}\<close>
  and the control key \<^verbatim>\<open>sku\<close> the result is \<^verbatim>\<open>true\<close>, and the call writes \<^verbatim>\<open>undefined\<close> to
  the cell of \<^verbatim>\<open>qty\<close>, a field that the record supplied does not have: the 5 is lost.  With
  the record \<^verbatim>\<open>{sku: "A", qty: 5}\<close> and the control key \<^verbatim>\<open>qty\<close>, which agrees with the sheet,
  the result is \<^verbatim>\<open>false\<close>.
\<close>

theorem C5_unsupplied_field_overwritten:
  "getSheetValues [[JStr ''id'', JStr ''sku'', JStr ''qty''], [JNum 1, JStr ''A'', JNum 5]] 2 2 1 2
   = Inr [[JStr ''A'', JNum 5]]
   \<and> updateDataItemByRow sku_qty_from_B
       (getSheetValues [[JStr ''id'', JStr ''sku'', JStr ''qty''], [JNum 1, JStr ''A'', JNum 5]])
       2 [(''sku'', JStr ''A'')] (Some (Arr [''sku''])) None
     = Inr (True, [SetValues 2 2 [[JStr ''A'', JUndefined]]])
   \<and> \<not> in_object ''qty'' [(''sku'', JStr ''A'')]
   \<and> update_on_sheet sku_qty_from_B
       [[JStr ''id'', JStr ''sku'', JStr ''qty''], [JNum 1, JStr ''A'', JNum 5]]
       2 [(''sku'', JStr ''A'')] (Some (Arr [''sku''])) None
     = Inr (True, [[JStr ''id'', JStr ''sku'', JStr ''qty''], [JNum 1, JStr ''A'', JStr '''']])
   \<and> update_on_sheet sku_qty_from_B
       [[JStr ''id'', JStr ''sku'', JStr ''qty''], [JNum 1, JStr ''A'', JNum 5]]
       2 [(''sku'', JStr ''A''), (''qty'', JNum 5)] (Some (Arr [''qty''])) None
     = Inr (False, [[JStr ''id'', JStr ''sku'', JStr ''qty''], [JNum 1, JStr ''A'', JNum 5]])"
  by code_simp

subsection \<open>Merging the same records twice\<close>

text \<open>
  C4.  The claim: after a merge of the records \<open>X\<close>, with the sheet as the merge left it,
  a second merge of \<open>X\<close> returns the counts 0, 0, 0.  The incoming record has
  \<^verbatim>\<open>qty: null\<close>.  The first merge writes \<^verbatim>\<open>null\<close> to the cell, which the sheet holds as
  the empty string; the second merge reads the cell through the cached read, which keeps
  \<^verbatim>\<open>""\<close> (see C7), and \<^verbatim>\<open>"" != null\<close> holds: the record counts as updated again, and
  on every later merge.
\<close>

theorem C4_second_merge_updates_again:
  "merge_on_sheet decimal sku_qty [[JStr ''sku'', JStr ''qty''], [JStr ''A'', JNum 5]]
     (ItemsArray [[(''sku'', JStr ''A''), (''qty'', JNull)]]) (Str ''sku'') default_options
   = Inr (\<lparr>n_updated = 1, n_inserted = 0, n_deleted = 0\<rparr>,
          [[JStr ''sku'', JStr ''qty''], [JStr ''A'', JStr '''']])
   \<and> merge_on_sheet decimal sku_qty [[JStr ''sku'', JStr ''qty''], [JStr ''A'', JStr '''']]
       (ItemsArray [[(''sku'', JStr ''A''), (''qty'', JNull)]]) (Str ''sku'') default_options
     = Inr (\<lparr>n_updated = 1, n_inserted = 0, n_deleted = 0\<rparr>,
            [[JStr ''sku'', JStr ''qty''], [JStr ''A'', JStr '''']])"
  by code_simp

end
